theory Spec2Isabelle
  imports Main
begin

section \<open>JavaScript values\<close>

text \<open>
  The relay has two variants: \<^verbatim>\<open>src/index.ts\<close> keeps the tokens in a Supabase table and
  serves \<^verbatim>\<open>/auth/init\<close>, \<^verbatim>\<open>/callback\<close>, \<^verbatim>\<open>/query\<close> and \<^verbatim>\<open>/disconnect\<close>; the bridge variant
  serves \<^verbatim>\<open>/auth/init\<close> and \<^verbatim>\<open>/callback\<close> and hands the tokens to an HTTP endpoint. Names
  ending in \<open>_bridge\<close> belong to the second.

  The handlers read untyped JSON (\<^verbatim>\<open>req.body\<close>, the parsed state token).
  A JSON value is a \<open>jsval\<close>; \<open>JUndefined\<close> is what reading a missing property gives.
  Numbers are the integer-valued ones (limits, timestamps); strings are the byte sequences
  of their UTF-8 encoding. An object is the list of its own properties, each key once.
\<close>

datatype jsval =
    JUndefined
  | JNull
  | JBool bool
  | JNum int
  | JStr string
  | JArr "jsval list"
  | JObj "(string \<times> jsval) list"

text \<open>An exception value; \<open>message\<close> is its \<^verbatim>\<open>.message\<close>.\<close>

datatype exn = TypeError string | SyntaxError string | Error string

fun message :: "exn \<Rightarrow> string" where
  "message (TypeError m) = m"
| "message (SyntaxError m) = m"
| "message (Error m) = m"

text \<open>JavaScript truthiness (\<^verbatim>\<open>!x\<close>, \<^verbatim>\<open>x && y\<close>, \<^verbatim>\<open>x || y\<close>).\<close>

fun truthy :: "jsval \<Rightarrow> bool" where
  "truthy JUndefined = False"
| "truthy JNull = False"
| "truthy (JBool b) = b"
| "truthy (JNum n) = (n \<noteq> 0)"
| "truthy (JStr s) = (s \<noteq> [])"
| "truthy (JArr xs) = True"
| "truthy (JObj kvs) = True"

definition js_or :: "jsval \<Rightarrow> jsval \<Rightarrow> jsval" where
  "js_or a b = (if truthy a then a else b)"

text \<open>
  Typed optional strings (\<^verbatim>\<open>string | null | undefined\<close>): \<open>None\<close> is null or undefined;
  the empty string is falsy as well.
\<close>

definition truthy_str :: "string option \<Rightarrow> bool" where
  "truthy_str x = (case x of None \<Rightarrow> False | Some s \<Rightarrow> s \<noteq> [])"

definition or_str :: "string option \<Rightarrow> string option \<Rightarrow> string option" where
  "or_str a b = (if truthy_str a then a else b)"

text \<open>
  Property read \<^verbatim>\<open>v.k\<close>: a TypeError on undefined and null, the own property of an
  object, undefined elsewhere. (The handlers read only \<^verbatim>\<open>property_id\<close>, \<^verbatim>\<open>start_date\<close>,
  \<^verbatim>\<open>end_date\<close>, \<^verbatim>\<open>limit\<close>, \<^verbatim>\<open>workspace_id\<close>, \<^verbatim>\<open>organization_id\<close> and \<^verbatim>\<open>redirect_url\<close>,
  none of which a prototype defines.)
\<close>

definition own :: "(string \<times> jsval) list \<Rightarrow> string \<Rightarrow> jsval" where
  "own kvs k = (case map_of kvs k of None \<Rightarrow> JUndefined | Some v \<Rightarrow> v)"

fun get_prop :: "jsval \<Rightarrow> string \<Rightarrow> exn + jsval" where
  "get_prop JUndefined k =
     Inl (TypeError (''Cannot read properties of undefined (reading '' @ [CHR 0x27] @ k @ [CHR 0x27] @ '')''))"
| "get_prop JNull k =
     Inl (TypeError (''Cannot read properties of null (reading '' @ [CHR 0x27] @ k @ [CHR 0x27] @ '')''))"
| "get_prop (JObj kvs) k = Inr (own kvs k)"
| "get_prop v k = Inr JUndefined"

text \<open>Decimal digits of a number, as a template literal prints it.\<close>

definition digit_char :: "nat \<Rightarrow> char" where
  "digit_char d = char_of (48 + d)"

fun show_nat :: "nat \<Rightarrow> string" where
  "show_nat n = (if n < 10 then [digit_char n] else show_nat (n div 10) @ [digit_char (n mod 10)])"

declare show_nat.simps [simp del]

definition show_int :: "int \<Rightarrow> string" where
  "show_int i = (if i < 0 then CHR ''-'' # show_nat (nat (- i)) else show_nat (nat i))"

text \<open>
  String conversion inside a template literal (\<^verbatim>\<open>`${v}`\<close>). An array joins its elements
  with commas, null and undefined elements printing as nothing. A parsed object has no
  callable property of its own, so one with an own \<^verbatim>\<open>toString\<close> key cannot be converted
  (TypeError); any other prints as \<^verbatim>\<open>[object Object]\<close>.
\<close>

fun js_to_string :: "jsval \<Rightarrow> exn + string"
  and js_join :: "jsval list \<Rightarrow> exn + string" where
  "js_to_string JUndefined = Inr ''undefined''"
| "js_to_string JNull = Inr ''null''"
| "js_to_string (JBool b) = Inr (if b then ''true'' else ''false'')"
| "js_to_string (JNum n) = Inr (show_int n)"
| "js_to_string (JStr s) = Inr s"
| "js_to_string (JArr xs) = js_join xs"
| "js_to_string (JObj kvs) =
     (if map_of kvs ''toString'' = None then Inr ''[object Object]''
      else Inl (TypeError ''Cannot convert object to primitive value''))"
| "js_join [] = Inr ''''"
| "js_join (x # xs) =
     (case (if x = JUndefined \<or> x = JNull then Inr '''' else js_to_string x) of
        Inl e \<Rightarrow> Inl e
      | Inr s \<Rightarrow>
          (if xs = [] then Inr s
           else (case js_join xs of Inl e \<Rightarrow> Inl e | Inr t \<Rightarrow> Inr (s @ '','' @ t))))"

section \<open>Base64, as \<^verbatim>\<open>Buffer\<close> does it\<close>

text \<open>
  \<^verbatim>\<open>buf.toString('base64')\<close> writes the standard alphabet with \<^verbatim>\<open>=\<close> padding.
  \<^verbatim>\<open>Buffer.from(s, 'base64')\<close> is lenient: it also reads the URL-safe alphabet, skips every
  character outside both, and stops at the first \<^verbatim>\<open>=\<close>; an incomplete last group gives the
  bytes it determines.
\<close>

definition b64_char :: "nat \<Rightarrow> char" where
  "b64_char i =
     (if i < 26 then char_of (65 + i)
      else if i < 52 then char_of (71 + i)
      else if i < 62 then char_of (i - 4)
      else if i = 62 then CHR ''+'' else CHR ''/'')"

fun b64_encode :: "string \<Rightarrow> string" where
  "b64_encode [] = []"
| "b64_encode [a] =
     (let x = of_char a :: nat in
      [b64_char (x div 4), b64_char (x mod 4 * 16), CHR ''='', CHR ''=''])"
| "b64_encode [a, b] =
     (let x = of_char a :: nat; y = of_char b :: nat in
      [b64_char (x div 4), b64_char (x mod 4 * 16 + y div 16), b64_char (y mod 16 * 4), CHR ''=''])"
| "b64_encode (a # b # c # rest) =
     (let x = of_char a :: nat; y = of_char b :: nat; z = of_char c :: nat in
      b64_char (x div 4) # b64_char (x mod 4 * 16 + y div 16) #
      b64_char (y mod 16 * 4 + z div 64) # b64_char (z mod 64) # b64_encode rest)"

definition b64_value :: "char \<Rightarrow> nat option" where
  "b64_value c =
     (let n = of_char c :: nat in
      if 65 \<le> n \<and> n \<le> 90 then Some (n - 65)
      else if 97 \<le> n \<and> n \<le> 122 then Some (n - 71)
      else if 48 \<le> n \<and> n \<le> 57 then Some (n + 4)
      else if c = CHR ''+'' \<or> c = CHR ''-'' then Some 62
      else if c = CHR ''/'' \<or> c = CHR ''_'' then Some 63
      else None)"

fun b64_sextets :: "string \<Rightarrow> nat list" where
  "b64_sextets [] = []"
| "b64_sextets (c # cs) =
     (if c = CHR ''='' then []
      else (case b64_value c of None \<Rightarrow> b64_sextets cs | Some v \<Rightarrow> v # b64_sextets cs))"

fun b64_bytes :: "nat list \<Rightarrow> string" where
  "b64_bytes (p # q # r # s # rest) =
     char_of (p * 4 + q div 16) # char_of (q mod 16 * 16 + r div 4) # char_of (r mod 4 * 64 + s) #
     b64_bytes rest"
| "b64_bytes [p, q, r] = [char_of (p * 4 + q div 16), char_of (q mod 16 * 16 + r div 4)]"
| "b64_bytes [p, q] = [char_of (p * 4 + q div 16)]"
| "b64_bytes ps = []"

definition b64_decode :: "string \<Rightarrow> string" where
  "b64_decode s = b64_bytes (b64_sextets s)"

section \<open>UTF-8 decoding, as \<^verbatim>\<open>buf.toString()\<close> does it\<close>

text \<open>
  A well-formed sequence is copied; every maximal ill-formed part is replaced by U+FFFD
  (\<open>replacement\<close>). \<open>utf8_dec p k\<close> holds the bytes \<open>p\<close> of the sequence being read and the
  number \<open>k\<close> of bytes it still needs. \<open>valid_utf8\<close> is well-formedness by the table of
  byte ranges.
\<close>

definition replacement :: string where
  "replacement = [CHR 0xEF, CHR 0xBF, CHR 0xBD]"

definition seq_len :: "nat \<Rightarrow> nat" where
  "seq_len a =
     (if a < 0x80 then 1
      else if 0xC2 \<le> a \<and> a \<le> 0xDF then 2
      else if 0xE0 \<le> a \<and> a \<le> 0xEF then 3
      else if 0xF0 \<le> a \<and> a \<le> 0xF4 then 4
      else 0)"

definition is_cont :: "nat \<Rightarrow> bool" where
  "is_cont b = (0x80 \<le> b \<and> b \<le> 0xBF)"

definition second_ok :: "nat \<Rightarrow> nat \<Rightarrow> bool" where
  "second_ok a b =
     (if a = 0xE0 then 0xA0 \<le> b \<and> b \<le> 0xBF
      else if a = 0xED then 0x80 \<le> b \<and> b \<le> 0x9F
      else if a = 0xF0 then 0x90 \<le> b \<and> b \<le> 0xBF
      else if a = 0xF4 then 0x80 \<le> b \<and> b \<le> 0x8F
      else is_cont b)"

definition continues :: "string \<Rightarrow> char \<Rightarrow> bool" where
  "continues p c =
     (case p of [a] \<Rightarrow> second_ok (of_char a) (of_char c) | _ \<Rightarrow> is_cont (of_char c))"

fun utf8_dec :: "string \<Rightarrow> nat \<Rightarrow> string \<Rightarrow> string" where
  "utf8_dec p k [] = (if k = 0 then [] else replacement)"
| "utf8_dec p k (c # cs) =
     (if k \<noteq> 0 \<and> continues p c then
        (if k = 1 then p @ c # utf8_dec [] 0 cs else utf8_dec (p @ [c]) (k - 1) cs)
      else
        (if k = 0 then [] else replacement) @
        (let n = seq_len (of_char c) in
         if n = 0 then replacement @ utf8_dec [] 0 cs
         else if n = 1 then c # utf8_dec [] 0 cs
         else utf8_dec [c] (n - 1) cs))"

definition buffer_toString :: "string \<Rightarrow> string" where
  "buffer_toString bs = utf8_dec [] 0 bs"

fun valid_utf8 :: "string \<Rightarrow> bool" where
  "valid_utf8 [] = True"
| "valid_utf8 (a # s) =
     (let n = seq_len (of_char a) in
      if n = 1 then valid_utf8 s
      else if n = 2 then
        (case s of b # s' \<Rightarrow> is_cont (of_char b) \<and> valid_utf8 s' | _ \<Rightarrow> False)
      else if n = 3 then
        (case s of
           b # c # s' \<Rightarrow> second_ok (of_char a) (of_char b) \<and> is_cont (of_char c) \<and> valid_utf8 s'
         | _ \<Rightarrow> False)
      else if n = 4 then
        (case s of
           b # c # d # s' \<Rightarrow>
             second_ok (of_char a) (of_char b) \<and> is_cont (of_char c) \<and> is_cont (of_char d) \<and>
             valid_utf8 s'
         | _ \<Rightarrow> False)
      else False)"

section \<open>\<^verbatim>\<open>JSON.stringify\<close>\<close>

text \<open>
  Strings are quoted with the two-character escapes and \<^verbatim>\<open>\u00xx\<close> for the other control
  characters; an undefined property is left out, an undefined array element prints as
  \<^verbatim>\<open>null\<close>.
\<close>

definition hex_digit :: "nat \<Rightarrow> char" where
  "hex_digit d = (if d < 10 then char_of (48 + d) else char_of (87 + d))"

definition short_escape :: "char \<Rightarrow> char option" where
  "short_escape c =
     (if c = CHR 0x22 then Some (CHR 0x22)
      else if c = CHR 0x5C then Some (CHR 0x5C)
      else if c = CHR 0x08 then Some (CHR ''b'')
      else if c = CHR 0x0C then Some (CHR ''f'')
      else if c = CHR 0x0A then Some (CHR ''n'')
      else if c = CHR 0x0D then Some (CHR ''r'')
      else if c = CHR 0x09 then Some (CHR ''t'')
      else None)"

definition quote_char :: "char \<Rightarrow> string" where
  "quote_char c =
     (case short_escape c of
        Some l \<Rightarrow> [CHR 0x5C, l]
      | None \<Rightarrow>
          if (of_char c :: nat) < 0x20 then
            [CHR 0x5C, CHR ''u'', CHR ''0'', CHR ''0'',
             hex_digit (of_char c div 16), hex_digit (of_char c mod 16)]
          else [c])"

definition quote_json :: "string \<Rightarrow> string" where
  "quote_json s = CHR 0x22 # concat (map quote_char s) @ [CHR 0x22]"

fun commas :: "string list \<Rightarrow> string" where
  "commas [] = []"
| "commas [x] = x"
| "commas (x # y # ys) = x @ CHR '','' # commas (y # ys)"

fun json_text :: "jsval \<Rightarrow> string"
  and json_elems :: "jsval list \<Rightarrow> string list"
  and json_members :: "(string \<times> jsval) list \<Rightarrow> string list" where
  "json_text JUndefined = ''null''"
| "json_text JNull = ''null''"
| "json_text (JBool b) = (if b then ''true'' else ''false'')"
| "json_text (JNum n) = show_int n"
| "json_text (JStr s) = quote_json s"
| "json_text (JArr xs) = CHR ''['' # commas (json_elems xs) @ '']''"
| "json_text (JObj kvs) = CHR ''{'' # commas (json_members kvs) @ ''}''"
| "json_elems [] = []"
| "json_elems (x # xs) = json_text x # json_elems xs"
| "json_members [] = []"
| "json_members ((k, v) # kvs) =
     (if v = JUndefined then json_members kvs
      else (quote_json k @ CHR '':'' # json_text v) # json_members kvs)"

section \<open>\<^verbatim>\<open>JSON.parse\<close>\<close>

text \<open>
  A recursive-descent reader of the JSON grammar. \<open>string_item\<close> reads one element of a
  string literal: the closing quote, an escape or a plain character. An escaped surrogate
  pair becomes one code point; the bytes of a code point are its UTF-8 encoding (of the
  same shape for a surrogate that stands alone).
  A repeated key keeps its first position and its last value (\<open>obj_set\<close>).
  Numbers are read as integers: a literal with a fraction or an exponent, or beyond the safe
  integers, has no \<open>JNum\<close> and is refused like a syntax error, which is where this reader
  departs from the engine. The comparisons of lengths in \<open>parse_elems\<close> and \<open>parse_members\<close>
  hold for every result of \<open>parse_value\<close>; they state the progress that the termination
  proof uses.
\<close>

definition hex_value :: "char \<Rightarrow> nat option" where
  "hex_value c =
     (let n = of_char c :: nat in
      if 48 \<le> n \<and> n \<le> 57 then Some (n - 48)
      else if 97 \<le> n \<and> n \<le> 102 then Some (n - 87)
      else if 65 \<le> n \<and> n \<le> 70 then Some (n - 55)
      else None)"

definition hex4 :: "char \<Rightarrow> char \<Rightarrow> char \<Rightarrow> char \<Rightarrow> nat option" where
  "hex4 a b c d =
     (case (hex_value a, hex_value b, hex_value c, hex_value d) of
        (Some p, Some q, Some r, Some s) \<Rightarrow> Some (((p * 16 + q) * 16 + r) * 16 + s)
      | _ \<Rightarrow> None)"

definition utf8_encode :: "nat \<Rightarrow> string" where
  "utf8_encode u =
     (if u < 0x80 then [char_of u]
      else if u < 0x800 then [char_of (0xC0 + u div 64), char_of (0x80 + u mod 64)]
      else if u < 0x10000 then
        [char_of (0xE0 + u div 4096), char_of (0x80 + u div 64 mod 64), char_of (0x80 + u mod 64)]
      else
        [char_of (0xF0 + u div 262144), char_of (0x80 + u div 4096 mod 64),
         char_of (0x80 + u div 64 mod 64), char_of (0x80 + u mod 64)])"

definition simple_escape :: "char \<Rightarrow> char option" where
  "simple_escape e =
     (if e = CHR 0x22 then Some (CHR 0x22)
      else if e = CHR 0x5C then Some (CHR 0x5C)
      else if e = CHR ''/'' then Some (CHR ''/'')
      else if e = CHR ''b'' then Some (CHR 0x08)
      else if e = CHR ''f'' then Some (CHR 0x0C)
      else if e = CHR ''n'' then Some (CHR 0x0A)
      else if e = CHR ''r'' then Some (CHR 0x0D)
      else if e = CHR ''t'' then Some (CHR 0x09)
      else None)"

definition surrogate_pair :: "nat \<Rightarrow> char \<Rightarrow> char \<Rightarrow> nat option \<Rightarrow> nat option" where
  "surrogate_pair u b v lo =
     (if 0xD800 \<le> u \<and> u \<le> 0xDBFF \<and> b = CHR 0x5C \<and> v = CHR ''u'' then
        (case lo of
           None \<Rightarrow> None
         | Some l \<Rightarrow>
             if 0xDC00 \<le> l \<and> l \<le> 0xDFFF
             then Some (0x10000 + (u - 0xD800) * 1024 + (l - 0xDC00)) else None)
      else None)"

fun low_part :: "nat \<Rightarrow> string \<Rightarrow> string \<times> string" where
  "low_part u (b # v # l1 # l2 # l3 # l4 # cs) =
     (case surrogate_pair u b v (hex4 l1 l2 l3 l4) of
        Some cp \<Rightarrow> (utf8_encode cp, cs)
      | None \<Rightarrow> (utf8_encode u, b # v # l1 # l2 # l3 # l4 # cs))"
| "low_part u cs = (utf8_encode u, cs)"

fun unicode_escape :: "string \<Rightarrow> (string \<times> string) option" where
  "unicode_escape (h1 # h2 # h3 # h4 # cs) =
     (case hex4 h1 h2 h3 h4 of None \<Rightarrow> None | Some u \<Rightarrow> Some (low_part u cs))"
| "unicode_escape cs = None"

fun escape :: "string \<Rightarrow> (string \<times> string) option" where
  "escape [] = None"
| "escape (e # cs) =
     (if e = CHR ''u'' then unicode_escape cs
      else (case simple_escape e of None \<Rightarrow> None | Some ch \<Rightarrow> Some ([ch], cs)))"

fun string_item :: "string \<Rightarrow> (string option \<times> string) option" where
  "string_item [] = None"
| "string_item (c # cs) =
     (if c = CHR 0x22 then Some (None, cs)
      else if c = CHR 0x5C then
        (case escape cs of None \<Rightarrow> None | Some (xs, rest) \<Rightarrow> Some (Some xs, rest))
      else if (of_char c :: nat) < 0x20 then None
      else Some (Some [c], cs))"

lemma low_part_length: "low_part u cs = (xs, rest) \<Longrightarrow> length rest \<le> length cs"
  by (cases "(u, cs)" rule: low_part.cases) (auto split: option.splits)

lemma unicode_escape_length: "unicode_escape cs = Some (xs, rest) \<Longrightarrow> length rest \<le> length cs"
  by (cases cs rule: unicode_escape.cases)
     (auto split: option.splits dest!: low_part_length)

lemma escape_length: "escape cs = Some (xs, rest) \<Longrightarrow> length rest < length cs"
  by (cases cs rule: escape.cases)
     (auto split: if_splits option.splits dest!: unicode_escape_length)

lemma string_item_length: "string_item s = Some (x, rest) \<Longrightarrow> length rest < length s"
  by (cases s rule: string_item.cases)
     (auto split: if_splits option.splits dest!: escape_length)

function parse_chars :: "string \<Rightarrow> (string \<times> string) option" where
  "parse_chars s =
     (case string_item s of
        None \<Rightarrow> None
      | Some (None, rest) \<Rightarrow> Some ([], rest)
      | Some (Some xs, rest) \<Rightarrow>
          (case parse_chars rest of None \<Rightarrow> None | Some (str, rest') \<Rightarrow> Some (xs @ str, rest')))"
  by pat_completeness auto
termination
  by (relation "measure length") (auto dest: string_item_length)

declare parse_chars.simps [simp del]

fun skip_ws :: "string \<Rightarrow> string" where
  "skip_ws [] = []"
| "skip_ws (c # cs) =
     (if c = CHR '' '' \<or> c = CHR 0x09 \<or> c = CHR 0x0A \<or> c = CHR 0x0D then skip_ws cs else c # cs)"

definition is_digit :: "char \<Rightarrow> bool" where
  "is_digit c = (48 \<le> (of_char c :: nat) \<and> (of_char c :: nat) \<le> 57)"

definition digits_value :: "string \<Rightarrow> int" where
  "digits_value ds = foldl (\<lambda>n d. n * 10 + (of_char d - 48)) 0 ds"

definition parse_number :: "string \<Rightarrow> (jsval \<times> string) option" where
  "parse_number s =
     (let neg = (take 1 s = ''-'');
          s1 = (if neg then drop 1 s else s);
          ds = takeWhile is_digit s1;
          rest = dropWhile is_digit s1
      in if ds = [] \<or> (take 1 ds = ''0'' \<and> length ds > 1) then None
         else if take 1 rest = ''.'' \<or> take 1 rest = ''e'' \<or> take 1 rest = ''E'' then None
         else if digits_value ds > 9007199254740991 then None
         else Some (JNum (if neg then - digits_value ds else digits_value ds), rest))"

definition parse_scalar :: "string \<Rightarrow> (jsval \<times> string) option" where
  "parse_scalar s =
     (if take 4 s = ''true'' then Some (JBool True, drop 4 s)
      else if take 5 s = ''false'' then Some (JBool False, drop 5 s)
      else if take 4 s = ''null'' then Some (JNull, drop 4 s)
      else parse_number s)"

definition obj_set :: "(string \<times> jsval) list \<Rightarrow> string \<Rightarrow> jsval \<Rightarrow> (string \<times> jsval) list" where
  "obj_set kvs k v =
     (if map_of kvs k = None then kvs @ [(k, v)]
      else map (\<lambda>(k', v'). if k' = k then (k', v) else (k', v')) kvs)"

lemma skip_ws_length: "length (skip_ws s) \<le> length s"
  by (induction s) auto

lemma parse_chars_length: "parse_chars s = Some (k, rest) \<Longrightarrow> length rest < length s"
proof (induction s arbitrary: k rest rule: parse_chars.induct)
  case (1 s)
  show ?case
  proof (cases "string_item s")
    case None
    then show ?thesis using "1.prems" by (simp add: parse_chars.simps[of s])
  next
    case (Some a)
    obtain x r where a: "a = (x, r)" by (cases a)
    note len = string_item_length[OF Some[unfolded a]]
    show ?thesis
    proof (cases x)
      case None
      then show ?thesis using "1.prems" Some a len by (simp add: parse_chars.simps[of s])
    next
      case (Some xs)
      then obtain str where "parse_chars r = Some (str, rest)"
        using "1.prems" \<open>string_item s = Some a\<close> a
        by (auto simp: parse_chars.simps[of s] split: option.splits)
      from "1.IH"[OF \<open>string_item s = Some a\<close> a[symmetric] Some this] len show ?thesis by simp
    qed
  qed
qed

function parse_value :: "string \<Rightarrow> (jsval \<times> string) option"
  and parse_elems :: "jsval list \<Rightarrow> string \<Rightarrow> (jsval \<times> string) option"
  and parse_members :: "(string \<times> jsval) list \<Rightarrow> string \<Rightarrow> (jsval \<times> string) option" where
  "parse_value s =
     (case s of
        [] \<Rightarrow> None
      | c # cs \<Rightarrow>
          if c = CHR ''{'' then
            (case skip_ws cs of
               [] \<Rightarrow> None
             | d # rest \<Rightarrow> if d = CHR ''}'' then Some (JObj [], rest) else parse_members [] (d # rest))
          else if c = CHR ''['' then
            (case skip_ws cs of
               [] \<Rightarrow> None
             | d # rest \<Rightarrow> if d = CHR '']'' then Some (JArr [], rest) else parse_elems [] (d # rest))
          else if c = CHR 0x22 then
            (case parse_chars cs of None \<Rightarrow> None | Some (str, rest) \<Rightarrow> Some (JStr str, rest))
          else parse_scalar (c # cs))"
| "parse_elems acc s =
     (case parse_value s of
        None \<Rightarrow> None
      | Some (v, rest) \<Rightarrow>
          if length rest < length s then
            (case skip_ws rest of
               [] \<Rightarrow> None
             | c # rest1 \<Rightarrow>
                 if c = CHR '','' then parse_elems (acc @ [v]) (skip_ws rest1)
                 else if c = CHR '']'' then Some (JArr (acc @ [v]), rest1)
                 else None)
          else None)"
| "parse_members acc s =
     (case s of
        [] \<Rightarrow> None
      | c # cs \<Rightarrow>
          if c = CHR 0x22 then
            (case parse_chars cs of
               None \<Rightarrow> None
             | Some (k, rest) \<Rightarrow>
                 (case skip_ws rest of
                    [] \<Rightarrow> None
                  | d # rest1 \<Rightarrow>
                      if d = CHR '':'' then
                        (case parse_value (skip_ws rest1) of
                           None \<Rightarrow> None
                         | Some (v, rest2) \<Rightarrow>
                             if length rest2 < length (skip_ws rest1) then
                               (case skip_ws rest2 of
                                  [] \<Rightarrow> None
                                | e # rest3 \<Rightarrow>
                                    if e = CHR '','' then parse_members (obj_set acc k v) (skip_ws rest3)
                                    else if e = CHR ''}'' then Some (JObj (obj_set acc k v), rest3)
                                    else None)
                             else None)
                      else None))
          else None)"
  by pat_completeness auto
termination
proof (relation "measure (\<lambda>x. case x of
          Inl s \<Rightarrow> 2 * length s
        | Inr (Inl (acc, s)) \<Rightarrow> 2 * length s + 1
        | Inr (Inr (acc, s)) \<Rightarrow> 2 * length s + 1)", goal_cases)
  case 1
  then show ?case by simp
next
  case (2 s c cs d rest)
  then show ?case using skip_ws_length[of cs] by simp
next
  case (3 s c cs d rest)
  then show ?case using skip_ws_length[of cs] by simp
next
  case (4 acc s)
  then show ?case by simp
next
  case (5 acc s x2 v rest c rest1)
  then show ?case using skip_ws_length[of rest] skip_ws_length[of rest1] by simp
next
  case (6 acc s c cs x2 k rest d rest1)
  then show ?case
    using skip_ws_length[of rest] skip_ws_length[of rest1] parse_chars_length[of cs k rest] by simp
next
  case (7 acc s c cs x2 k rest d rest1 x2a v rest2 e rest3)
  then show ?case
    using skip_ws_length[of rest] skip_ws_length[of rest1] skip_ws_length[of rest2]
      skip_ws_length[of rest3] parse_chars_length[of cs k rest] by simp
qed

definition json_parse :: "string \<Rightarrow> exn + jsval" where
  "json_parse s =
     (case parse_value (skip_ws s) of
        None \<Rightarrow> Inl (SyntaxError ''Unexpected token in JSON'')
      | Some (v, rest) \<Rightarrow>
          if skip_ws rest = [] then Inr v else Inl (SyntaxError ''Unexpected token in JSON''))"

declare parse_value.simps [simp del]

declare parse_elems.simps [simp del]

declare parse_members.simps [simp del]

section \<open>The credential store and the external services\<close>

text \<open>
  The token set of the identity provider's client library
  (\<^verbatim>\<open>access_token\<close>, \<^verbatim>\<open>refresh_token\<close>, \<^verbatim>\<open>expiry_date\<close>, each optional).
\<close>

record Credentials =
  access_token :: "string option"
  refresh_token :: "string option"
  expiry_date :: "int option"

text \<open>A row of the \<^verbatim>\<open>integrations\<close> table; \<open>credentials = None\<close> is the null column.\<close>

record integration =
  status :: string
  credentials :: "Credentials option"
  connected_at :: string

text \<open>
  The table is addressed by \<^verbatim>\<open>(workspace_id, platform)\<close>, at most one row per pair, the
  \<^verbatim>\<open>workspace_id\<close> being the value the handler passes to the store client.
\<close>

type_synonym store = "jsval \<times> string \<Rightarrow> integration option"

text \<open>What an update writes: \<open>patch_status = None\<close> leaves the status column alone.\<close>

record patch =
  patch_status :: "string option"
  patch_credentials :: "Credentials option"

record report_request =
  property :: string
  startDate :: jsval
  endDate :: jsval
  metrics :: "string list"
  dimensions :: "string list"
  limit :: "jsval option"

record auth_url_opts =
  access_type :: string
  prompt :: string
  scope :: "string list"
  state :: string

record bridge_payload =
  bp_workspace_id :: jsval
  bp_organization_id :: jsval
  bp_tokens :: Credentials

text \<open>
  A store request fails in one of two ways: the client resolves with an \<^verbatim>\<open>error\<close> field
  (\<open>Rejected\<close>; the handlers read it with \<^verbatim>\<open>const { error } = await ...\<close>), or the awaited
  promise rejects (\<open>Raised\<close>).
\<close>

datatype fault = Rejected string | Raised exn

text \<open>Every call a handler makes to a service outside the process, in order.\<close>

datatype call =
    Select jsval
  | Update jsval patch
  | Upsert jsval integration
  | GetToken "string option"
  | RefreshAccessToken Credentials
  | RunReport Credentials report_request
  | AccountSummariesList Credentials
  | BridgePost bridge_payload

text \<open>
  The environment of one request: the clock and how each outside service answers.
  The identity provider and the analytics API are functions of what they are sent.
\<close>

record env =
  now :: int
  now_iso :: string
  select_fault :: "fault option"
  update_fault :: "fault option"
  upsert_fault :: "fault option"
  getToken :: "string option \<Rightarrow> exn + Credentials"
  refreshAccessToken :: "Credentials \<Rightarrow> exn + Credentials"
  runReport :: "Credentials \<Rightarrow> report_request \<Rightarrow> exn + jsval"
  accountSummaries_list :: "Credentials \<Rightarrow> exn + jsval"
  generateAuthUrl :: "auth_url_opts \<Rightarrow> string"
  bridge_fetch :: "bridge_payload \<Rightarrow> exn + bool"

text \<open>
  The state a request runs in: the table, the credentials held by the process-wide
  \<^verbatim>\<open>oauth2Client\<close>, and the log of outside calls.
\<close>

record world =
  integrations :: store
  oauth2Client :: Credentials
  calls :: "call list"

text \<open>
  What the handler sends: a JSON body with a status, a redirect, or nothing at all when
  the handler's promise rejects (\<open>Unhandled\<close>).
\<close>

datatype response = Json nat jsval | Redirect string | Unhandled exn

definition log_call :: "call \<Rightarrow> world \<Rightarrow> world" where
  "log_call c w = w\<lparr>calls := calls w @ [c]\<rparr>"

text \<open>
  \<^verbatim>\<open>.from('integrations').select('credentials').eq(...).eq(...).single()\<close>:
  the row's credentials column, or an error when no row matches.
\<close>

definition supabase_select ::
  "env \<Rightarrow> jsval \<Rightarrow> world \<Rightarrow> (exn + (Credentials option option \<times> string option)) \<times> world" where
  "supabase_select E wid w =
     (let w' = log_call (Select wid) w in
      case select_fault E of
        Some (Raised e) \<Rightarrow> (Inl e, w')
      | Some (Rejected m) \<Rightarrow> (Inr (None, Some m), w')
      | None \<Rightarrow>
          (case integrations w (wid, ''google_analytics'') of
             None \<Rightarrow> (Inr (None, Some ''PGRST116''), w')
           | Some row \<Rightarrow> (Inr (Some (credentials row), None), w')))"

definition apply_patch :: "patch \<Rightarrow> integration \<Rightarrow> integration" where
  "apply_patch p row =
     row\<lparr>status := (case patch_status p of None \<Rightarrow> status row | Some s \<Rightarrow> s),
         credentials := patch_credentials p\<rparr>"

text \<open>
  \<^verbatim>\<open>.from('integrations').update(p).eq(...).eq(...)\<close>: rewrites the matching row if
  there is one; matching no row is not an error.
\<close>

definition supabase_update ::
  "env \<Rightarrow> jsval \<Rightarrow> patch \<Rightarrow> world \<Rightarrow> (exn + string option) \<times> world" where
  "supabase_update E wid p w =
     (let w' = log_call (Update wid p) w in
      case update_fault E of
        Some (Raised e) \<Rightarrow> (Inl e, w')
      | Some (Rejected m) \<Rightarrow> (Inr (Some m), w')
      | None \<Rightarrow>
          (case integrations w (wid, ''google_analytics'') of
             None \<Rightarrow> (Inr None, w')
           | Some row \<Rightarrow>
               (Inr None,
                w'\<lparr>integrations := (integrations w)((wid, ''google_analytics'') \<mapsto> apply_patch p row)\<rparr>)))"

text \<open>\<^verbatim>\<open>.upsert(row, { onConflict: 'workspace_id,platform' })\<close>.\<close>

definition supabase_upsert ::
  "env \<Rightarrow> jsval \<Rightarrow> integration \<Rightarrow> world \<Rightarrow> (exn + string option) \<times> world" where
  "supabase_upsert E wid row w =
     (let w' = log_call (Upsert wid row) w in
      case upsert_fault E of
        Some (Raised e) \<Rightarrow> (Inl e, w')
      | Some (Rejected m) \<Rightarrow> (Inr (Some m), w')
      | None \<Rightarrow>
          (Inr None, w'\<lparr>integrations := (integrations w)((wid, ''google_analytics'') \<mapsto> row)\<rparr>))"

section \<open>The query dispatcher (\<^verbatim>\<open>POST /query\<close>)\<close>

text \<open>The parsed JSON body; a field that the body lacks is \<open>JUndefined\<close>.\<close>

record query_body =
  workspace_id :: jsval
  tool :: jsval
  params :: jsval

definition server_error :: "exn \<Rightarrow> response" where
  "server_error e = Json 500 (JObj [(''error'', JStr (message e))])"

text \<open>\<^verbatim>\<open>expiry_date && Date.now() > expiry_date\<close>\<close>

definition expired :: "env \<Rightarrow> int option \<Rightarrow> bool" where
  "expired E ed = (case ed of None \<Rightarrow> False | Some t \<Rightarrow> t \<noteq> 0 \<and> now E > t)"

text \<open>
  The refresh block (lines 117-133): refresh through the shared client, keep what it
  returns as the client's credentials, and write the new token set to the row. The
  result of the update is not looked at; only a rejected promise stops the request.
\<close>

definition refreshed_credentials :: "Credentials \<Rightarrow> Credentials \<Rightarrow> Credentials" where
  "refreshed_credentials cr c =
     \<lparr>access_token = access_token cr,
      refresh_token = or_str (refresh_token cr) (refresh_token c),
      expiry_date = expiry_date cr\<rparr>"

definition refresh_block :: "env \<Rightarrow> jsval \<Rightarrow> Credentials \<Rightarrow> world \<Rightarrow> (exn + unit) \<times> world" where
  "refresh_block E wid c w =
     (if expired E (expiry_date c) then
        (let w1 = log_call (RefreshAccessToken (oauth2Client w)) w in
         case refreshAccessToken E (oauth2Client w) of
           Inl e \<Rightarrow> (Inl e, w1)
         | Inr cr \<Rightarrow>
             (case supabase_update E wid
                     \<lparr>patch_status = None, patch_credentials = Some (refreshed_credentials cr c)\<rparr>
                     (w1\<lparr>oauth2Client := cr\<rparr>) of
                (Inl e, w2) \<Rightarrow> (Inl e, w2)
              | (Inr err, w2) \<Rightarrow> (Inr (), w2)))
      else (Inr (), w))"

text \<open>The request bodies of the three report tools (lines 141-177).\<close>

definition property_path :: "jsval \<Rightarrow> exn + string" where
  "property_path ps =
     (case get_prop ps ''property_id'' of
        Inl e \<Rightarrow> Inl e
      | Inr v \<Rightarrow> (case js_to_string v of Inl e \<Rightarrow> Inl e | Inr s \<Rightarrow> Inr (''properties/'' @ s)))"

definition param_or :: "jsval \<Rightarrow> string \<Rightarrow> jsval \<Rightarrow> exn + jsval" where
  "param_or ps k d = (case get_prop ps k of Inl e \<Rightarrow> Inl e | Inr v \<Rightarrow> Inr (js_or v d))"

definition traffic_overview_request :: "jsval \<Rightarrow> exn + report_request" where
  "traffic_overview_request ps =
     (case property_path ps of Inl e \<Rightarrow> Inl e | Inr p \<Rightarrow>
     (case param_or ps ''start_date'' (JStr ''30daysAgo'') of Inl e \<Rightarrow> Inl e | Inr sd \<Rightarrow>
     (case param_or ps ''end_date'' (JStr ''today'') of Inl e \<Rightarrow> Inl e | Inr ed \<Rightarrow>
        Inr \<lparr>property = p, startDate = sd, endDate = ed,
             metrics = [''sessions'', ''activeUsers'', ''screenPageViews'', ''bounceRate''],
             dimensions = [''date''], limit = None\<rparr>)))"

definition top_pages_request :: "jsval \<Rightarrow> exn + report_request" where
  "top_pages_request ps =
     (case property_path ps of Inl e \<Rightarrow> Inl e | Inr p \<Rightarrow>
     (case param_or ps ''start_date'' (JStr ''30daysAgo'') of Inl e \<Rightarrow> Inl e | Inr sd \<Rightarrow>
     (case param_or ps ''end_date'' (JStr ''today'') of Inl e \<Rightarrow> Inl e | Inr ed \<Rightarrow>
     (case param_or ps ''limit'' (JNum 10) of Inl e \<Rightarrow> Inl e | Inr lim \<Rightarrow>
        Inr \<lparr>property = p, startDate = sd, endDate = ed,
             metrics = [''screenPageViews'', ''activeUsers''],
             dimensions = [''pagePath''], limit = Some lim\<rparr>))))"

definition traffic_sources_request :: "jsval \<Rightarrow> exn + report_request" where
  "traffic_sources_request ps =
     (case property_path ps of Inl e \<Rightarrow> Inl e | Inr p \<Rightarrow>
     (case param_or ps ''start_date'' (JStr ''30daysAgo'') of Inl e \<Rightarrow> Inl e | Inr sd \<Rightarrow>
     (case param_or ps ''end_date'' (JStr ''today'') of Inl e \<Rightarrow> Inl e | Inr ed \<Rightarrow>
        Inr \<lparr>property = p, startDate = sd, endDate = ed,
             metrics = [''sessions'', ''activeUsers''],
             dimensions = [''sessionSource'', ''sessionMedium''], limit = None\<rparr>)))"

text \<open>\<^verbatim>\<open>res.json({ data: result.data })\<close>\<close>

definition data_response :: "jsval \<Rightarrow> response" where
  "data_response d = Json 200 (JObj [(''data'', d)])"

text \<open>One \<^verbatim>\<open>analyticsData.properties.runReport\<close> call with the client's credentials.\<close>

definition run_report :: "env \<Rightarrow> exn + report_request \<Rightarrow> world \<Rightarrow> (exn + response) \<times> world" where
  "run_report E rqe w =
     (case rqe of
        Inl e \<Rightarrow> (Inl e, w)
      | Inr rq \<Rightarrow>
          (let w' = log_call (RunReport (oauth2Client w) rq) w in
           case runReport E (oauth2Client w) rq of
             Inl e \<Rightarrow> (Inl e, w')
           | Inr d \<Rightarrow> (Inr (data_response d), w')))"

text \<open>\<^verbatim>\<open>admin.accountSummaries.list()\<close>\<close>

definition list_account_summaries :: "env \<Rightarrow> world \<Rightarrow> (exn + response) \<times> world" where
  "list_account_summaries E w =
     (let w' = log_call (AccountSummariesList (oauth2Client w)) w in
      case accountSummaries_list E (oauth2Client w) of
        Inl e \<Rightarrow> (Inl e, w')
      | Inr d \<Rightarrow> (Inr (data_response d), w'))"

text \<open>The \<^verbatim>\<open>switch (tool)\<close> (lines 139-186); the cases compare with \<^verbatim>\<open>===\<close>.\<close>

definition dispatch :: "env \<Rightarrow> jsval \<Rightarrow> jsval \<Rightarrow> world \<Rightarrow> (exn + response) \<times> world" where
  "dispatch E t ps w =
     (if t = JStr ''get_traffic_overview'' then run_report E (traffic_overview_request ps) w
      else if t = JStr ''get_top_pages'' then run_report E (top_pages_request ps) w
      else if t = JStr ''get_traffic_sources'' then run_report E (traffic_sources_request ps) w
      else if t = JStr ''list_properties'' then list_account_summaries E w
      else
        (case js_to_string t of
           Inl e \<Rightarrow> (Inl e, w)
         | Inr s \<Rightarrow> (Inr (Json 400 (JObj [(''error'', JStr (''Unknown tool: '' @ s))])), w)))"

definition not_connected :: response where
  "not_connected = Json 401 (JObj [(''error'', JStr ''Not connected to Google Analytics'')])"

definition query :: "env \<Rightarrow> query_body \<Rightarrow> world \<Rightarrow> response \<times> world" where
  "query E body w =
     (case supabase_select E (workspace_id body) w of
        (Inl e, w1) \<Rightarrow> (server_error e, w1)
      | (Inr (data, error), w1) \<Rightarrow>
          (case (error, data) of
             (None, Some (Some c)) \<Rightarrow>
               (let w2 = w1\<lparr>oauth2Client :=
                           \<lparr>access_token = access_token c,
                            refresh_token = refresh_token c,
                            expiry_date = expiry_date c\<rparr>\<rparr> in
                case refresh_block E (workspace_id body) c w2 of
                  (Inl e, w3) \<Rightarrow> (server_error e, w3)
                | (Inr u, w3) \<Rightarrow>
                    (case dispatch E (tool body) (params body) w3 of
                       (Inl e, w4) \<Rightarrow> (server_error e, w4)
                     | (Inr r, w4) \<Rightarrow> (r, w4)))
           | _ \<Rightarrow> (not_connected, w1)))"

section \<open>Disconnect (\<^verbatim>\<open>POST /disconnect\<close>)\<close>

definition disconnect :: "env \<Rightarrow> jsval \<Rightarrow> world \<Rightarrow> response \<times> world" where
  "disconnect E wid w =
     (case supabase_update E wid \<lparr>patch_status = Some ''disconnected'', patch_credentials = None\<rparr> w of
        (Inl e, w') \<Rightarrow> (server_error e, w')
      | (Inr err, w') \<Rightarrow> (Json 200 (JObj [(''success'', JBool True)]), w'))"

section \<open>The authorization initiator (\<^verbatim>\<open>GET /auth/init\<close>)\<close>

text \<open>
  \<^verbatim>\<open>req.query\<close>: each parameter is absent or a string (the handlers cast \<^verbatim>\<open>code\<close> and
  \<^verbatim>\<open>state\<close> to \<^verbatim>\<open>string\<close>).
\<close>

record url_query =
  q_workspace_id :: "string option"
  q_organization_id :: "string option"
  q_redirect_url :: "string option"
  q_code :: "string option"
  q_state :: "string option"

definition qv :: "string option \<Rightarrow> jsval" where
  "qv x = (case x of None \<Rightarrow> JUndefined | Some s \<Rightarrow> JStr s)"

text \<open>\<^verbatim>\<open>Buffer.from(JSON.stringify(v)).toString('base64')\<close>\<close>

definition encode_state :: "jsval \<Rightarrow> string" where
  "encode_state v = b64_encode (json_text v)"

text \<open>The state token of \<^verbatim>\<open>src/index.ts\<close> (line 38) and of the bridge variant (lines 35-39).\<close>

definition state_token :: "url_query \<Rightarrow> string" where
  "state_token q =
     encode_state (JObj [(''workspace_id'', qv (q_workspace_id q)),
                         (''redirect_url'', qv (q_redirect_url q))])"

definition state_token_bridge :: "url_query \<Rightarrow> string" where
  "state_token_bridge q =
     encode_state (JObj [(''workspace_id'', qv (q_workspace_id q)),
                         (''organization_id'', qv (q_organization_id q)),
                         (''redirect_url'', qv (q_redirect_url q))])"





section \<open>The callback handler (\<^verbatim>\<open>GET /callback\<close>)\<close>

text \<open>
  \<^verbatim>\<open>JSON.parse(Buffer.from(state as string, 'base64').toString())\<close>; \<^verbatim>\<open>Buffer.from\<close> throws a
  TypeError when the parameter is absent.
\<close>

definition decode_state :: "string option \<Rightarrow> exn + jsval" where
  "decode_state st =
     (case st of
        None \<Rightarrow> Inl (TypeError ''The first argument must be of type string or an instance of Buffer, ArrayBuffer, or Array or an Array-like Object. Received undefined'')
      | Some s \<Rightarrow> json_parse (buffer_toString (b64_decode s)))"

text \<open>The destructuring of the decoded state: \<^verbatim>\<open>const { workspace_id, redirect_url } = ...\<close>\<close>

definition state_fields :: "string option \<Rightarrow> exn + jsval \<times> jsval" where
  "state_fields st =
     (case decode_state st of Inl e \<Rightarrow> Inl e | Inr v \<Rightarrow>
     (case get_prop v ''workspace_id'' of Inl e \<Rightarrow> Inl e | Inr wid \<Rightarrow>
     (case get_prop v ''redirect_url'' of Inl e \<Rightarrow> Inl e | Inr ru \<Rightarrow> Inr (wid, ru))))"

definition state_fields_bridge :: "string option \<Rightarrow> exn + jsval \<times> jsval \<times> jsval" where
  "state_fields_bridge st =
     (case decode_state st of Inl e \<Rightarrow> Inl e | Inr v \<Rightarrow>
     (case get_prop v ''workspace_id'' of Inl e \<Rightarrow> Inl e | Inr wid \<Rightarrow>
     (case get_prop v ''organization_id'' of Inl e \<Rightarrow> Inl e | Inr oid \<Rightarrow>
     (case get_prop v ''redirect_url'' of Inl e \<Rightarrow> Inl e | Inr ru \<Rightarrow> Inr (wid, oid, ru)))))"

text \<open>\<^verbatim>\<open>`${redirect_url}?success=true`\<close>\<close>

definition success_target :: "jsval \<Rightarrow> exn + string" where
  "success_target ru =
     (case js_to_string ru of Inl e \<Rightarrow> Inl e | Inr s \<Rightarrow> Inr (s @ ''?success=true''))"

text \<open>
  The \<^verbatim>\<open>try\<close> block of \<^verbatim>\<open>src/index.ts\<close> (lines 57-84): the redirect target on success, or
  the exception that reaches the \<^verbatim>\<open>catch\<close>.
\<close>

definition callback_try :: "env \<Rightarrow> url_query \<Rightarrow> world \<Rightarrow> (exn + string) \<times> world" where
  "callback_try E q w =
     (case state_fields (q_state q) of
        Inl e \<Rightarrow> (Inl e, w)
      | Inr (wid, ru) \<Rightarrow>
          (let w1 = log_call (GetToken (q_code q)) w in
           case getToken E (q_code q) of
             Inl e \<Rightarrow> (Inl e, w1)
           | Inr tokens \<Rightarrow>
               (case supabase_upsert E wid
                       \<lparr>status = ''connected'',
                        credentials = Some \<lparr>access_token = access_token tokens,
                                            refresh_token = refresh_token tokens,
                                            expiry_date = expiry_date tokens\<rparr>,
                        connected_at = now_iso E\<rparr> w1 of
                  (Inl e, w2) \<Rightarrow> (Inl e, w2)
                | (Inr (Some m), w2) \<Rightarrow> (Inl (Error m), w2)
                | (Inr None, w2) \<Rightarrow> (success_target ru, w2))))"

text \<open>\<^verbatim>\<open>res.redirect(`${req.query.redirect_url || '/'}?error=auth_failed`)\<close>\<close>

definition callback :: "env \<Rightarrow> url_query \<Rightarrow> world \<Rightarrow> response \<times> world" where
  "callback E q w =
     (case callback_try E q w of
        (Inr target, w') \<Rightarrow> (Redirect target, w')
      | (Inl e, w') \<Rightarrow>
          (Redirect ((case q_redirect_url q of
                        None \<Rightarrow> ''/''
                      | Some s \<Rightarrow> if s = [] then ''/'' else s) @ ''?error=auth_failed''), w'))"

text \<open>
  The bridge variant: the tokens go to the bridge endpoint; a response that is not
  \<^verbatim>\<open>ok\<close> throws \<^verbatim>\<open>Error('Failed to store tokens')\<close>.
\<close>

definition callback_bridge_try :: "env \<Rightarrow> url_query \<Rightarrow> world \<Rightarrow> (exn + string) \<times> world" where
  "callback_bridge_try E q w =
     (case state_fields_bridge (q_state q) of
        Inl e \<Rightarrow> (Inl e, w)
      | Inr (wid, oid, ru) \<Rightarrow>
          (let w1 = log_call (GetToken (q_code q)) w in
           case getToken E (q_code q) of
             Inl e \<Rightarrow> (Inl e, w1)
           | Inr tokens \<Rightarrow>
               (let payload = \<lparr>bp_workspace_id = wid, bp_organization_id = oid,
                                bp_tokens = \<lparr>access_token = access_token tokens,
                                             refresh_token = refresh_token tokens,
                                             expiry_date = expiry_date tokens\<rparr>\<rparr>;
                    w2 = log_call (BridgePost payload) w1 in
                case bridge_fetch E payload of
                  Inl e \<Rightarrow> (Inl e, w2)
                | Inr ok \<Rightarrow>
                    (if ok then (success_target ru, w2)
                     else (Inl (Error ''Failed to store tokens''), w2)))))"

text \<open>
  The \<^verbatim>\<open>catch\<close> block of the bridge variant (lines 91-97) decodes the state a second time,
  outside any \<^verbatim>\<open>try\<close>: what it throws rejects the handler's promise.
\<close>

definition failure_redirect_bridge :: "url_query \<Rightarrow> response" where
  "failure_redirect_bridge q =
     (if truthy_str (q_state q) then
        (case decode_state (q_state q) of
           Inl e \<Rightarrow> Unhandled e
         | Inr v \<Rightarrow>
             (case get_prop v ''redirect_url'' of
                Inl e \<Rightarrow> Unhandled e
              | Inr ru \<Rightarrow>
                  (case js_to_string ru of
                     Inl e \<Rightarrow> Unhandled e
                   | Inr s \<Rightarrow> Redirect (s @ ''?error=auth_failed''))))
      else Redirect ''/?error=auth_failed'')"

definition callback_bridge :: "env \<Rightarrow> url_query \<Rightarrow> world \<Rightarrow> response \<times> world" where
  "callback_bridge E q w =
     (case callback_bridge_try E q w of
        (Inr target, w') \<Rightarrow> (Redirect target, w')
      | (Inl e, w') \<Rightarrow> (failure_redirect_bridge q, w'))"

section \<open>Reading the call log\<close>

fun is_refresh_call :: "call \<Rightarrow> bool" where
  "is_refresh_call (RefreshAccessToken c) = True"
| "is_refresh_call x = False"

fun is_idp_call :: "call \<Rightarrow> bool" where
  "is_idp_call (RefreshAccessToken c) = True"
| "is_idp_call (GetToken c) = True"
| "is_idp_call x = False"

fun is_analytics_call :: "call \<Rightarrow> bool" where
  "is_analytics_call (RunReport c rq) = True"
| "is_analytics_call (AccountSummariesList c) = True"
| "is_analytics_call x = False"

text \<open>The store answers a request when the awaited promise does not reject.\<close>

fun answers :: "fault option \<Rightarrow> bool" where
  "answers (Some (Raised e)) = False"
| "answers x = True"

text \<open>The token set the table holds for a workspace, if any.\<close>

definition persisted :: "world \<Rightarrow> jsval \<Rightarrow> Credentials option" where
  "persisted w wid =
     (case integrations w (wid, ''google_analytics'') of None \<Rightarrow> None | Some row \<Rightarrow> credentials row)"

section \<open>A sample environment\<close>

definition creds0 :: Credentials where
  "creds0 = \<lparr>access_token = Some ''at-old'', refresh_token = Some ''rt-old'',
             expiry_date = Some 1700000000000\<rparr>"

definition row0 :: integration where
  "row0 = \<lparr>status = ''connected'', credentials = Some creds0,
           connected_at = ''2023-11-14T21:13:20.000Z''\<rparr>"

definition store0 :: store where
  "store0 = Map.empty((JStr ''w2'', ''google_analytics'') \<mapsto> row0)"

definition env0 :: env where
  "env0 =
     \<lparr>now = 1600000000000, now_iso = ''2020-09-13T12:26:40.000Z'',
      select_fault = None, update_fault = None, upsert_fault = None,
      getToken = (\<lambda>code. Inr \<lparr>access_token = Some ''at-1'', refresh_token = Some ''rt-1'',
                                expiry_date = Some 1600003600000\<rparr>),
      refreshAccessToken = (\<lambda>c. Inr \<lparr>access_token = Some ''at-new'', refresh_token = None,
                                       expiry_date = Some 1800003600000\<rparr>),
      runReport = (\<lambda>c rq. Inr (JObj [(''rowCount'', JNum 1)])),
      accountSummaries_list = (\<lambda>c. Inr (JObj [(''accountSummaries'', JArr [])])),
      generateAuthUrl = (\<lambda>opts. ''https://accounts.google.com/o/oauth2/v2/auth?state='' @ state opts),
      bridge_fetch = (\<lambda>p. Inr True)\<rparr>"

definition world0 :: world where
  "world0 = \<lparr>integrations = store0,
             oauth2Client = \<lparr>access_token = None, refresh_token = None, expiry_date = None\<rparr>,
             calls = []\<rparr>"

section \<open>Stating the round trip\<close>

text \<open>
  The text of one string member, the members of an object literal whose value is present,
  and a field that is absent or a well-formed string.
\<close>

definition member_text :: "string \<times> string \<Rightarrow> string" where
  "member_text m = quote_json (fst m) @ CHR '':'' # quote_json (snd m)"

fun present :: "(string \<times> string option) list \<Rightarrow> (string \<times> string) list" where
  "present [] = []"
| "present ((k, None) # fs) = present fs"
| "present ((k, Some s) # fs) = (k, s) # present fs"

definition valid_field :: "string option \<Rightarrow> bool" where
  "valid_field x = (case x of None \<Rightarrow> True | Some s \<Rightarrow> valid_utf8 s)"

section \<open>Basic facts\<close>

lemma calls_log_call [simp]: "calls (log_call c w) = calls w @ [c]"
  by (simp add: log_call_def)

lemma integrations_log_call [simp]: "integrations (log_call c w) = integrations w"
  by (simp add: log_call_def)

lemma oauth2Client_log_call [simp]: "oauth2Client (log_call c w) = oauth2Client w"
  by (simp add: log_call_def)

lemma Credentials_eta [simp]:
  "\<lparr>access_token = access_token c, refresh_token = refresh_token c, expiry_date = expiry_date c\<rparr> = c"
  by (cases c) simp

lemma answers_cases: "answers f \<Longrightarrow> f = None \<or> (\<exists>m. f = Some (Rejected m))"
  by (cases f rule: answers.cases) auto

lemma select_found:
  assumes "supabase_select E wid w = (Inr (Some (Some c), None), w1)"
  shows "w1 = log_call (Select wid) w" and "persisted w wid = Some c"
  using assms
  by (auto simp: supabase_select_def persisted_def Let_def split: option.splits fault.splits)

lemma refresh_block_fresh:
  "\<not> expired E (expiry_date c) \<Longrightarrow> refresh_block E wid c w = (Inr (), w)"
  by (simp add: refresh_block_def)



section \<open>The query dispatcher without credentials\<close>

text \<open>
  Claim C5. When the store answers the lookup and the workspace has no row for
  \<^verbatim>\<open>google_analytics\<close>, or its row has null credentials, \<^verbatim>\<open>POST /query\<close> answers 401 with
  the message "Not connected to Google Analytics". The only outside call of the request is
  the lookup itself: nothing is sent to the identity provider or to the analytics API.
\<close>

theorem query_not_connected:
  assumes ans: "answers (select_fault E)"
    and absent: "integrations w (workspace_id body, ''google_analytics'') = None \<or>
       (\<exists>row. integrations w (workspace_id body, ''google_analytics'') = Some row \<and>
              credentials row = None)"
  shows "query E body w =
           (Json 401 (JObj [(''error'', JStr ''Not connected to Google Analytics'')]),
            w\<lparr>calls := calls w @ [Select (workspace_id body)]\<rparr>) \<and>
         filter (\<lambda>c. is_idp_call c \<or> is_analytics_call c) (calls (snd (query E body w))) =
         filter (\<lambda>c. is_idp_call c \<or> is_analytics_call c) (calls w)"
  using answers_cases[OF ans] absent
  by (auto simp: query_def supabase_select_def not_connected_def log_call_def)

theorem query_not_connected_witness:
  "answers (select_fault env0) \<and>
   integrations world0 (JStr ''w9'', ''google_analytics'') = None \<and>
   query env0 \<lparr>workspace_id = JStr ''w9'', tool = JStr ''get_top_pages'', params = JObj []\<rparr> world0 =
     (Json 401 (JObj [(''error'', JStr ''Not connected to Google Analytics'')]),
      world0\<lparr>calls := [Select (JStr ''w9'')]\<rparr>)"
  using query_not_connected[of env0 world0
      "\<lparr>workspace_id = JStr ''w9'', tool = JStr ''get_top_pages'', params = JObj []\<rparr>"]
  by (simp add: env0_def world0_def store0_def)

section \<open>Unknown tools\<close>



section \<open>Disconnect\<close>

lemma disconnect_clears:
  assumes "update_fault E = None" and "integrations w (wid, ''google_analytics'') = Some row"
  shows "disconnect E wid w =
     (Json 200 (JObj [(''success'', JBool True)]),
      w\<lparr>calls := calls w @ [Update wid \<lparr>patch_status = Some ''disconnected'', patch_credentials = None\<rparr>],
        integrations := (integrations w)((wid, ''google_analytics'') \<mapsto>
                          row\<lparr>status := ''disconnected'', credentials := None\<rparr>)\<rparr>)"
  using assms by (simp add: disconnect_def supabase_update_def log_call_def apply_patch_def)

lemma disconnect_never_connected:
  assumes "update_fault E = None" and "integrations w (wid, ''google_analytics'') = None"
  shows "disconnect E wid w =
     (Json 200 (JObj [(''success'', JBool True)]),
      w\<lparr>calls := calls w @ [Update wid \<lparr>patch_status = Some ''disconnected'', patch_credentials = None\<rparr>]\<rparr>)"
  using assms by (simp add: disconnect_def supabase_update_def log_call_def)

lemma disconnect_raised:
  assumes "update_fault E = Some (Raised e)"
  shows "fst (disconnect E wid w) = Json 500 (JObj [(''error'', JStr (message e))])"
  using assms by (simp add: disconnect_def supabase_update_def log_call_def server_error_def)

text \<open>
  Claim C8. Disconnect writes \<^verbatim>\<open>status = 'disconnected'\<close> and null credentials to the row of
  \<^verbatim>\<open>(workspace_id, 'google_analytics')\<close> and succeeds as well when there is no such row
  (\<open>disconnect_clears\<close>, \<open>disconnect_never_connected\<close>); an update whose promise rejects is
  answered with 500 (\<open>disconnect_raised\<close>). A failure that the store client reports in the
  \<^verbatim>\<open>error\<close> field of its result is not read: the handler answers \<^verbatim>\<open>{success: true}\<close> with
  status 200 while the row still holds its credentials.
\<close>

theorem disconnect_ignores_rejected_update:
  "disconnect (env0\<lparr>update_fault := Some (Rejected ''connection refused'')\<rparr>) (JStr ''w2'') world0 =
     (Json 200 (JObj [(''success'', JBool True)]),
      world0\<lparr>calls := [Update (JStr ''w2'')
                          \<lparr>patch_status = Some ''disconnected'', patch_credentials = None\<rparr>]\<rparr>) \<and>
   persisted world0 (JStr ''w2'') = Some creds0"
  by (simp add: disconnect_def supabase_update_def env0_def world0_def log_call_def persisted_def
                store0_def row0_def)

section \<open>The refresh step\<close>

lemma run_report_integrations [simp]: "integrations (snd (run_report E rqe w)) = integrations w"
  by (simp add: run_report_def Let_def split: sum.splits)

lemma list_account_summaries_integrations [simp]:
  "integrations (snd (list_account_summaries E w)) = integrations w"
  by (simp add: list_account_summaries_def Let_def split: sum.splits)

lemma run_report_refresh_calls [simp]:
  "filter is_refresh_call (calls (snd (run_report E rqe w))) = filter is_refresh_call (calls w)"
  by (simp add: run_report_def Let_def split: sum.splits)

lemma list_account_summaries_refresh_calls [simp]:
  "filter is_refresh_call (calls (snd (list_account_summaries E w))) = filter is_refresh_call (calls w)"
  by (simp add: list_account_summaries_def Let_def split: sum.splits)



lemma dispatch_integrations [simp]: "integrations (snd (dispatch E t ps w)) = integrations w"
  by (simp add: dispatch_def split: sum.splits)

lemma dispatch_refresh_calls [simp]:
  "filter is_refresh_call (calls (snd (dispatch E t ps w))) = filter is_refresh_call (calls w)"
  by (simp add: dispatch_def split: sum.splits)


lemma query_found:
  assumes "supabase_select E (workspace_id body) w = (Inr (Some (Some c), None), w1)"
  shows "query E body w =
     (case refresh_block E (workspace_id body) c (w1\<lparr>oauth2Client := c\<rparr>) of
        (Inl e, w3) \<Rightarrow> (server_error e, w3)
      | (Inr u, w3) \<Rightarrow>
          (case dispatch E (tool body) (params body) w3 of
             (Inl e, w4) \<Rightarrow> (server_error e, w4)
           | (Inr r, w4) \<Rightarrow> (r, w4)))"
  using assms by (simp add: query_def)

















lemma top_pages_request_object:
  assumes "js_to_string (own kvs ''property_id'') = Inr p"
  shows "top_pages_request (JObj kvs) =
     Inr \<lparr>property = ''properties/'' @ p,
          startDate = js_or (own kvs ''start_date'') (JStr ''30daysAgo''),
          endDate = js_or (own kvs ''end_date'') (JStr ''today''),
          metrics = [''screenPageViews'', ''activeUsers''],
          dimensions = [''pagePath''],
          limit = Some (js_or (own kvs ''limit'') (JNum 10))\<rparr>"
  using assms by (simp add: top_pages_request_def property_path_def param_or_def)

lemma traffic_overview_request_object:
  assumes "js_to_string (own kvs ''property_id'') = Inr p"
  shows "traffic_overview_request (JObj kvs) =
     Inr \<lparr>property = ''properties/'' @ p,
          startDate = js_or (own kvs ''start_date'') (JStr ''30daysAgo''),
          endDate = js_or (own kvs ''end_date'') (JStr ''today''),
          metrics = [''sessions'', ''activeUsers'', ''screenPageViews'', ''bounceRate''],
          dimensions = [''date''],
          limit = None\<rparr>"
  using assms by (simp add: traffic_overview_request_def property_path_def param_or_def)

lemma traffic_sources_request_object:
  assumes "js_to_string (own kvs ''property_id'') = Inr p"
  shows "traffic_sources_request (JObj kvs) =
     Inr \<lparr>property = ''properties/'' @ p,
          startDate = js_or (own kvs ''start_date'') (JStr ''30daysAgo''),
          endDate = js_or (own kvs ''end_date'') (JStr ''today''),
          metrics = [''sessions'', ''activeUsers''],
          dimensions = [''sessionSource'', ''sessionMedium''],
          limit = None\<rparr>"
  using assms by (simp add: traffic_sources_request_def property_path_def param_or_def)

lemma query_fresh_report:
  assumes sel: "supabase_select E (workspace_id body) w = (Inr (Some (Some c), None), w1)"
    and fresh: "\<not> expired E (expiry_date c)"
    and d: "dispatch E (tool body) (params body) (w1\<lparr>oauth2Client := c\<rparr>) =
              run_report E (Inr rq) (w1\<lparr>oauth2Client := c\<rparr>)"
  shows "calls (snd (query E body w)) = calls w @ [Select (workspace_id body), RunReport c rq] \<and>
         fst (query E body w) =
           (case runReport E c rq of Inl e \<Rightarrow> server_error e | Inr d \<Rightarrow> Json 200 (JObj [(''data'', d)]))"
  using select_found(1)[OF sel] d
  by (simp add: query_found[OF sel] refresh_block_fresh[OF fresh] run_report_def data_response_def
           split: sum.splits)


lemma select_w2:
  "supabase_select env0 (JStr ''w2'') world0 =
     (Inr (Some (Some creds0), None), world0\<lparr>calls := [Select (JStr ''w2'')]\<rparr>)"
  by (simp add: env0_def world0_def store0_def row0_def supabase_select_def log_call_def)

lemma creds0_fresh: "\<not> expired env0 (expiry_date creds0)"
  by (simp add: env0_def creds0_def expired_def)



text \<open>
  Claim C10. The defaults of the report parameters are chosen by truthiness, not by
  presence. For each of the three report tools, a \<^verbatim>\<open>start_date\<close> or \<^verbatim>\<open>end_date\<close> that is
  present but falsy (the empty string in particular) is replaced by \<^verbatim>\<open>30daysAgo\<close> or
  \<^verbatim>\<open>today\<close> in the report call that is issued, and for \<^verbatim>\<open>get_top_pages\<close> a present but falsy
  \<^verbatim>\<open>limit\<close> (0 in particular) is replaced by 10.
\<close>

theorem falsy_params_take_defaults:
  assumes tool: "tool body \<in> {JStr ''get_traffic_overview'', JStr ''get_top_pages'',
                               JStr ''get_traffic_sources''}"
    and sel: "supabase_select E (workspace_id body) w = (Inr (Some (Some c), None), w1)"
    and fresh: "\<not> expired E (expiry_date c)"
    and ps: "params body = JObj kvs"
    and pid: "js_to_string (own kvs ''property_id'') = Inr p"
  shows "\<exists>rq. calls (snd (query E body w)) = calls w @ [Select (workspace_id body), RunReport c rq] \<and>
           (\<forall>v. map_of kvs ''start_date'' = Some v \<longrightarrow> \<not> truthy v \<longrightarrow> startDate rq = JStr ''30daysAgo'') \<and>
           (\<forall>v. map_of kvs ''end_date'' = Some v \<longrightarrow> \<not> truthy v \<longrightarrow> endDate rq = JStr ''today'') \<and>
           (\<forall>v. tool body = JStr ''get_top_pages'' \<longrightarrow> map_of kvs ''limit'' = Some v \<longrightarrow> \<not> truthy v \<longrightarrow>
                limit rq = Some (JNum 10)) \<and>
           (map_of kvs ''start_date'' = Some (JStr []) \<longrightarrow> startDate rq = JStr ''30daysAgo'') \<and>
           (map_of kvs ''end_date'' = Some (JStr []) \<longrightarrow> endDate rq = JStr ''today'') \<and>
           (tool body = JStr ''get_top_pages'' \<longrightarrow> map_of kvs ''limit'' = Some (JNum 0) \<longrightarrow>
                limit rq = Some (JNum 10))"
proof -
  let ?w2 = "w1\<lparr>oauth2Client := c\<rparr>"
  obtain rq where d: "dispatch E (tool body) (params body) ?w2 = run_report E (Inr rq) ?w2"
    and sd: "startDate rq = js_or (own kvs ''start_date'') (JStr ''30daysAgo'')"
    and ed: "endDate rq = js_or (own kvs ''end_date'') (JStr ''today'')"
    and lim: "tool body = JStr ''get_top_pages'' \<longrightarrow> limit rq = Some (js_or (own kvs ''limit'') (JNum 10))"
    using tool ps top_pages_request_object[OF pid] traffic_overview_request_object[OF pid]
      traffic_sources_request_object[OF pid]
    by (auto simp: dispatch_def)
  from query_fresh_report[OF sel fresh d]
  have "calls (snd (query E body w)) = calls w @ [Select (workspace_id body), RunReport c rq]"
    by simp
  then show ?thesis using sd ed lim
    by (auto simp: js_or_def own_def)
qed

theorem falsy_params_take_defaults_witness:
  "JStr ''get_top_pages'' \<in> {JStr ''get_traffic_overview'', JStr ''get_top_pages'',
                               JStr ''get_traffic_sources''} \<and>
   supabase_select env0 (JStr ''w2'') world0 =
     (Inr (Some (Some creds0), None), world0\<lparr>calls := [Select (JStr ''w2'')]\<rparr>) \<and>
   \<not> expired env0 (expiry_date creds0) \<and>
   js_to_string (own [(''property_id'', JStr ''123''), (''limit'', JNum 0),
                      (''start_date'', JStr []), (''end_date'', JStr [])] ''property_id'') = Inr ''123'' \<and>
   (\<exists>rq. calls (snd (query env0
      \<lparr>workspace_id = JStr ''w2'', tool = JStr ''get_top_pages'',
       params = JObj [(''property_id'', JStr ''123''), (''limit'', JNum 0),
                      (''start_date'', JStr []), (''end_date'', JStr [])]\<rparr> world0)) =
           [Select (JStr ''w2''), RunReport creds0 rq] \<and>
         startDate rq = JStr ''30daysAgo'' \<and> endDate rq = JStr ''today'' \<and>
         limit rq = Some (JNum 10))"
proof -
  let ?kvs = "[(''property_id'', JStr ''123''), (''limit'', JNum 0),
               (''start_date'', JStr []), (''end_date'', JStr [])]"
  let ?body = "\<lparr>workspace_id = JStr ''w2'', tool = JStr ''get_top_pages'', params = JObj ?kvs\<rparr>"
  have h1: "tool ?body \<in> {JStr ''get_traffic_overview'', JStr ''get_top_pages'',
                               JStr ''get_traffic_sources''}" by simp
  have h2: "supabase_select env0 (workspace_id ?body) world0 =
     (Inr (Some (Some creds0), None), world0\<lparr>calls := [Select (JStr ''w2'')]\<rparr>)"
    using select_w2 by simp
  have h3: "params ?body = JObj ?kvs" by simp
  have h4: "js_to_string (own ?kvs ''property_id'') = Inr ''123''" by (simp add: own_def)
  from falsy_params_take_defaults[OF h1 h2 creds0_fresh h3 h4]
  obtain rq where "calls (snd (query env0 ?body world0)) = calls world0 @ [Select (workspace_id ?body), RunReport creds0 rq]"
    "startDate rq = JStr ''30daysAgo''" "endDate rq = JStr ''today''" "limit rq = Some (JNum 10)"
    by auto
  then have "\<exists>rq. calls (snd (query env0 ?body world0)) = [Select (JStr ''w2''), RunReport creds0 rq] \<and>
         startDate rq = JStr ''30daysAgo'' \<and> endDate rq = JStr ''today'' \<and>
         limit rq = Some (JNum 10)"
    by (auto simp: world0_def)
  then show ?thesis using select_w2 creds0_fresh h4 by simp
qed

section \<open>Base64 round trip\<close>

lemma of_char_lt_256: "(of_char c :: nat) < 256"
  by (cases c) (simp add: of_char_def)

lemma b64_value_char: "i < 64 \<Longrightarrow> b64_value (b64_char i) = Some i"
  by (auto simp: b64_value_def b64_char_def Let_def)

lemma b64_value_pad: "b64_value (CHR ''='') = None"
  by (simp add: b64_value_def)

lemma b64_char_not_pad: "i < 64 \<Longrightarrow> b64_char i \<noteq> CHR ''=''"
  using b64_value_char[of i] b64_value_pad by auto

lemma b64_sextets_char:
  "i < 64 \<Longrightarrow> b64_sextets (b64_char i # cs) = i # b64_sextets cs"
  by (simp add: b64_value_char b64_char_not_pad)

lemma b64_sextets_pad: "b64_sextets (CHR ''='' # cs) = []"
  by simp

lemma sextet_bounds:
  fixes x y z :: nat
  assumes "x < 256" "y < 256" "z < 256"
  shows "x div 4 < 64" "x mod 4 * 16 + y div 16 < 64" "y mod 16 * 4 + z div 64 < 64" "z mod 64 < 64"
    "x mod 4 * 16 < 64" "y mod 16 * 4 < 64"
  using assms by auto

lemma sextet_hi:
  fixes x y :: nat
  assumes "y < 256"
  shows "(x mod 4 * 16 + y div 16) div 16 = x mod 4" "(x mod 4 * 16 + y div 16) mod 16 = y div 16"
  using assms by simp_all

lemma sextet_lo:
  fixes y z :: nat
  assumes "z < 256"
  shows "(y mod 16 * 4 + z div 64) div 4 = y mod 16" "(y mod 16 * 4 + z div 64) mod 4 = z div 64"
  using assms by simp_all

lemma b64_bytes_group:
  fixes x y z :: nat
  assumes "x < 256" "y < 256" "z < 256"
  shows "b64_bytes (x div 4 # (x mod 4 * 16 + y div 16) # (y mod 16 * 4 + z div 64) # z mod 64 # ps) =
           char_of x # char_of y # char_of z # b64_bytes ps"
  using assms by (simp add: sextet_hi sextet_lo)

lemma b64_bytes_two:
  fixes x y :: nat
  assumes "x < 256" "y < 256"
  shows "b64_bytes [x div 4, x mod 4 * 16 + y div 16, y mod 16 * 4] = [char_of x, char_of y]"
  using assms by (simp add: sextet_hi)

lemma b64_bytes_one:
  fixes x :: nat
  shows "b64_bytes [x div 4, x mod 4 * 16] = [char_of x]"
  by simp

lemma b64_decode_encode: "b64_decode (b64_encode bs) = bs"
proof (induction bs rule: b64_encode.induct)
  case 1
  show ?case by (simp add: b64_decode_def)
next
  case (2 a)
  have x: "(of_char a :: nat) < 256" by (rule of_char_lt_256)
  have "b64_sextets (b64_encode [a]) = [of_char a div 4, of_char a mod 4 * 16]"
    using sextet_bounds[OF x x x]
    by (simp add: Let_def b64_sextets_char b64_sextets_pad del: b64_sextets.simps)
  then show ?case
    by (simp only: b64_decode_def b64_bytes_one char_of_char)
next
  case (3 a b)
  have x: "(of_char a :: nat) < 256" and y: "(of_char b :: nat) < 256" by (rule of_char_lt_256)+
  have "b64_sextets (b64_encode [a, b]) =
          [of_char a div 4, of_char a mod 4 * 16 + of_char b div 16, of_char b mod 16 * 4]"
    using sextet_bounds[OF x y y]
    by (simp add: Let_def b64_sextets_char b64_sextets_pad del: b64_sextets.simps)
  then show ?case
    by (simp only: b64_decode_def b64_bytes_two[OF x y] char_of_char)
next
  case (4 a b c rest)
  have x: "(of_char a :: nat) < 256" and y: "(of_char b :: nat) < 256"
    and z: "(of_char c :: nat) < 256" by (rule of_char_lt_256)+
  have "b64_sextets (b64_encode (a # b # c # rest)) =
          of_char a div 4 # (of_char a mod 4 * 16 + of_char b div 16) #
          (of_char b mod 16 * 4 + of_char c div 64) # of_char c mod 64 # b64_sextets (b64_encode rest)"
    using sextet_bounds[OF x y z]
    by (simp add: Let_def b64_sextets_char del: b64_sextets.simps)
  then show ?case using 4
    by (simp only: b64_decode_def b64_bytes_group[OF x y z] char_of_char)
qed

section \<open>Decoding well-formed UTF-8\<close>

lemma valid_utf8_ascii: "(of_char a :: nat) < 0x80 \<Longrightarrow> valid_utf8 (a # s) = valid_utf8 s"
  by (simp add: seq_len_def)

lemma utf8_dec_ascii: "(of_char a :: nat) < 0x80 \<Longrightarrow> utf8_dec [] 0 (a # s) = a # utf8_dec [] 0 s"
  by (simp add: seq_len_def)

lemma seq_len_cases:
  "seq_len a = 0 \<or> seq_len a = 1 \<or> seq_len a = 2 \<or> seq_len a = 3 \<or> seq_len a = 4"
  by (simp add: seq_len_def)

lemma second_ok_two: "seq_len a = 2 \<Longrightarrow> second_ok a b = is_cont b"
  by (auto simp: seq_len_def second_ok_def split: if_splits)

lemma utf8_dec_valid: "valid_utf8 s \<Longrightarrow> utf8_dec [] 0 s = s"
proof (induction s rule: valid_utf8.induct)
  case 1
  show ?case by simp
next
  case (2 a s)
  consider "seq_len (of_char a) = 0" | "seq_len (of_char a) = 1" | "seq_len (of_char a) = 2"
    | "seq_len (of_char a) = 3" | "seq_len (of_char a) = 4"
    using seq_len_cases[of "of_char a"] by (elim disjE) auto
  then show ?case
  proof cases
    case 1
    then show ?thesis using "2.prems" by simp
  next
    case 2
    then show ?thesis using "2.prems" "2.IH"(1) by simp
  next
    case 3
    then obtain b s' where s: "s = b # s'" and b: "is_cont (of_char b)" and v: "valid_utf8 s'"
      using "2.prems" by (auto split: list.splits)
    from "2.IH"(2)[OF refl _ _ s v] 3 have "utf8_dec [] 0 s' = s'" by simp
    then show ?thesis using 3 s b by (simp add: continues_def second_ok_two)
  next
    case 4
    then obtain b c s' where s: "s = b # c # s'" and b: "second_ok (of_char a) (of_char b)"
      and c: "is_cont (of_char c)" and v: "valid_utf8 s'"
      using "2.prems" by (auto split: list.splits)
    from "2.IH"(3)[OF refl _ _ _ s refl v] 4 have "utf8_dec [] 0 s' = s'" by simp
    then show ?thesis using 4 s b c by (simp add: continues_def)
  next
    case 5
    then obtain b c d s' where s: "s = b # c # d # s'" and b: "second_ok (of_char a) (of_char b)"
      and c: "is_cont (of_char c)" and d: "is_cont (of_char d)" and v: "valid_utf8 s'"
      using "2.prems" by (auto split: list.splits)
    from "2.IH"(4)[OF refl _ _ _ _ s refl refl v] 5 have "utf8_dec [] 0 s' = s'" by simp
    then show ?thesis using 5 s b c d by (simp add: continues_def)
  qed
qed

lemma valid_utf8_all_ascii: "\<forall>c\<in>set s. (of_char c :: nat) < 0x80 \<Longrightarrow> valid_utf8 s"
  by (induction s) (simp_all add: valid_utf8_ascii del: valid_utf8.simps(2))

lemma hex_digit_ascii: "d < 16 \<Longrightarrow> (of_char (hex_digit d) :: nat) < 0x80"
  by (simp add: hex_digit_def)

lemma short_escape_Some:
  assumes "short_escape c = Some l"
  shows "(of_char l :: nat) < 0x80" and "l \<noteq> CHR ''u''" and "simple_escape l = Some c"
    and "(of_char c :: nat) < 0x80"
  using assms by (auto simp: short_escape_def simple_escape_def split: if_splits)

lemma short_escape_None:
  assumes "short_escape c = None"
  shows "c \<noteq> CHR 0x22" and "c \<noteq> CHR 0x5C"
  using assms by (auto simp: short_escape_def split: if_splits)

lemma short_escape_high: "0x80 \<le> (of_char c :: nat) \<Longrightarrow> short_escape c = None"
  by (cases "short_escape c") (auto dest: short_escape_Some(4))

lemma quote_char_ascii:
  assumes "(of_char a :: nat) < 0x80"
  shows "\<forall>c\<in>set (quote_char a). (of_char c :: nat) < 0x80"
proof (cases "short_escape a")
  case (Some l)
  then show ?thesis using short_escape_Some(1)[OF Some] by (simp add: quote_char_def)
next
  case None
  show ?thesis
  proof (cases "(of_char a :: nat) < 0x20")
    case True
    then have "(of_char a :: nat) div 16 < 16" "(of_char a :: nat) mod 16 < 16" by simp_all
    then show ?thesis using None True hex_digit_ascii by (simp add: quote_char_def)
  next
    case False
    then show ?thesis using None assms by (simp add: quote_char_def)
  qed
qed

lemma quote_char_high: "0x80 \<le> (of_char a :: nat) \<Longrightarrow> quote_char a = [a]"
  by (simp add: quote_char_def short_escape_high)

lemma is_cont_high: "is_cont b \<Longrightarrow> 0x80 \<le> b"
  by (simp add: is_cont_def)

lemma second_ok_high: "second_ok a b \<Longrightarrow> 0x80 \<le> b"
  by (auto simp: second_ok_def is_cont_def split: if_splits)

lemma seq_len_high: "2 \<le> seq_len a \<Longrightarrow> 0x80 \<le> a"
  by (auto simp: seq_len_def split: if_splits)

lemma valid_utf8_1: "seq_len (of_char a) = 1 \<Longrightarrow> valid_utf8 (a # s) = valid_utf8 s"
  by simp

lemma valid_utf8_2:
  "seq_len (of_char a) = 2 \<Longrightarrow> valid_utf8 (a # b # s) = (is_cont (of_char b) \<and> valid_utf8 s)"
  by simp

lemma valid_utf8_3:
  "seq_len (of_char a) = 3 \<Longrightarrow>
   valid_utf8 (a # b # c # s) =
     (second_ok (of_char a) (of_char b) \<and> is_cont (of_char c) \<and> valid_utf8 s)"
  by simp

lemma valid_utf8_4:
  "seq_len (of_char a) = 4 \<Longrightarrow>
   valid_utf8 (a # b # c # d # s) =
     (second_ok (of_char a) (of_char b) \<and> is_cont (of_char c) \<and> is_cont (of_char d) \<and>
      valid_utf8 s)"
  by simp

lemma valid_utf8_head:
  assumes "valid_utf8 (a # s)"
  obtains
    (one) "seq_len (of_char a) = 1" "valid_utf8 s"
  | (two) b s' where "seq_len (of_char a) = 2" "s = b # s'" "is_cont (of_char b)" "valid_utf8 s'"
  | (three) b c s' where "seq_len (of_char a) = 3" "s = b # c # s'"
      "second_ok (of_char a) (of_char b)" "is_cont (of_char c)" "valid_utf8 s'"
  | (four) b c d s' where "seq_len (of_char a) = 4" "s = b # c # d # s'"
      "second_ok (of_char a) (of_char b)" "is_cont (of_char c)" "is_cont (of_char d)" "valid_utf8 s'"
proof -
  consider "seq_len (of_char a) = 0" | "seq_len (of_char a) = 1" | "seq_len (of_char a) = 2"
    | "seq_len (of_char a) = 3" | "seq_len (of_char a) = 4"
    using seq_len_cases[of "of_char a"] by (elim disjE) auto
  then show thesis
  proof cases
    case 1
    then show ?thesis using assms by simp
  next
    case 2
    then show ?thesis using assms one by simp
  next
    case 3
    then show ?thesis using assms two by (cases s) auto
  next
    case 4
    then show ?thesis using assms three
      by (cases s; cases "tl s") auto
  next
    case 5
    then show ?thesis using assms four
      by (cases s; cases "tl s"; cases "tl (tl s)") auto
  qed
qed

lemma valid_utf8_append: "valid_utf8 x \<Longrightarrow> valid_utf8 y \<Longrightarrow> valid_utf8 (x @ y)"
proof (induction x rule: length_induct)
  case (1 x)
  note IH = "1.IH"[rule_format]
  show ?case
  proof (cases x)
    case Nil
    then show ?thesis using "1.prems" by simp
  next
    case (Cons a s)
    from "1.prems"(1)[unfolded Cons] show ?thesis
    proof (cases rule: valid_utf8_head)
      case one
      then show ?thesis using IH[of s] Cons "1.prems"(2)
        by (simp add: valid_utf8_1 del: valid_utf8.simps(2))
    next
      case (two b s')
      then show ?thesis using IH[of s'] Cons "1.prems"(2)
        by (simp add: valid_utf8_2 del: valid_utf8.simps(2))
    next
      case (three b c s')
      then show ?thesis using IH[of s'] Cons "1.prems"(2)
        by (simp add: valid_utf8_3 del: valid_utf8.simps(2))
    next
      case (four b c d s')
      then show ?thesis using IH[of s'] Cons "1.prems"(2)
        by (simp add: valid_utf8_4 del: valid_utf8.simps(2))
    qed
  qed
qed

lemma valid_utf8_quoted: "valid_utf8 s \<Longrightarrow> valid_utf8 (concat (map quote_char s))"
proof (induction s rule: length_induct)
  case (1 x)
  note IH = "1.IH"[rule_format]
  show ?case
  proof (cases x)
    case Nil
    then show ?thesis by simp
  next
    case (Cons a s)
    from "1.prems"(1)[unfolded Cons] show ?thesis
    proof (cases rule: valid_utf8_head)
      case one
      then have asc: "(of_char a :: nat) < 0x80" by (auto simp: seq_len_def split: if_splits)
      have "valid_utf8 (concat (map quote_char s))" using IH[of s] Cons one by simp
      then show ?thesis
        using valid_utf8_append[OF valid_utf8_all_ascii[OF quote_char_ascii[OF asc]]] Cons
        by (simp del: valid_utf8.simps(2))
    next
      case (two b s')
      have "valid_utf8 (concat (map quote_char s'))" using IH[of s'] Cons two by simp
      then show ?thesis
        using two Cons seq_len_high[of "of_char a"] is_cont_high[OF two(3)]
        by (simp add: quote_char_high valid_utf8_2 del: valid_utf8.simps(2))
    next
      case (three b c s')
      have "valid_utf8 (concat (map quote_char s'))" using IH[of s'] Cons three by simp
      then show ?thesis
        using three Cons seq_len_high[of "of_char a"] second_ok_high[OF three(3)]
          is_cont_high[OF three(4)]
        by (simp add: quote_char_high valid_utf8_3 del: valid_utf8.simps(2))
    next
      case (four b c d s')
      have "valid_utf8 (concat (map quote_char s'))" using IH[of s'] Cons four by simp
      then show ?thesis
        using four Cons seq_len_high[of "of_char a"] second_ok_high[OF four(3)]
          is_cont_high[OF four(4)] is_cont_high[OF four(5)]
        by (simp add: quote_char_high valid_utf8_4 del: valid_utf8.simps(2))
    qed
  qed
qed

lemma valid_utf8_quote_json: "valid_utf8 s \<Longrightarrow> valid_utf8 (quote_json s)"
proof -
  assume "valid_utf8 s"
  then have "valid_utf8 (concat (map quote_char s) @ [CHR 0x22])"
    using valid_utf8_append[OF valid_utf8_quoted, of s "[CHR 0x22]"]
    by (simp add: valid_utf8_ascii del: valid_utf8.simps(2))
  then show ?thesis
    by (simp add: quote_json_def valid_utf8_ascii del: valid_utf8.simps(2))
qed

section \<open>Reading back what \<^verbatim>\<open>JSON.stringify\<close> wrote\<close>

lemma hex_value_digit: "d < 16 \<Longrightarrow> hex_value (hex_digit d) = Some d"
  by (auto simp: hex_value_def hex_digit_def Let_def)

lemma hex_value_zero: "hex_value (CHR ''0'') = Some 0"
  by (simp add: hex_value_def)

lemma low_part_plain: "u < 0xD800 \<Longrightarrow> low_part u cs = (utf8_encode u, cs)"
  by (cases "(u, cs)" rule: low_part.cases) (simp_all add: surrogate_pair_def)

lemma string_item_control:
  assumes lt: "(of_char c :: nat) < 0x20"
  shows "string_item ([CHR 0x5C, CHR ''u'', CHR ''0'', CHR ''0'',
            hex_digit (of_char c div 16), hex_digit (of_char c mod 16)] @ t) = Some (Some [c], t)"
proof -
  have d: "(of_char c :: nat) div 16 < 16" "(of_char c :: nat) mod 16 < 16" using lt by simp_all
  have h: "hex4 (CHR ''0'') (CHR ''0'') (hex_digit (of_char c div 16)) (hex_digit (of_char c mod 16)) =
           Some (of_char c)"
    by (simp add: hex4_def hex_value_zero hex_value_digit[OF d(1)] hex_value_digit[OF d(2)])
  have lp: "low_part (of_char c) t = ([c], t)"
    using low_part_plain[of "of_char c" t] lt by (simp add: utf8_encode_def)
  show ?thesis by (simp add: h lp)
qed

lemma string_item_quote_char: "string_item (quote_char c @ t) = Some (Some [c], t)"
proof (cases "short_escape c")
  case (Some l)
  from short_escape_Some[OF Some] show ?thesis
    using Some by (simp add: quote_char_def)
next
  case None
  show ?thesis
  proof (cases "(of_char c :: nat) < 0x20")
    case True
    then show ?thesis using None string_item_control[OF True, of t]
      by (simp add: quote_char_def del: string_item.simps)
  next
    case False
    then show ?thesis using None short_escape_None[OF None] by (simp add: quote_char_def)
  qed
qed

lemma parse_chars_quoted: "parse_chars (concat (map quote_char s) @ CHR 0x22 # t) = Some (s, t)"
proof (induction s)
  case Nil
  show ?case by (simp add: parse_chars.simps[of "CHR 0x22 # t"])
next
  case (Cons c s)
  have "string_item (concat (map quote_char (c # s)) @ CHR 0x22 # t) =
          Some (Some [c], concat (map quote_char s) @ CHR 0x22 # t)"
    using string_item_quote_char[of c "concat (map quote_char s) @ CHR 0x22 # t"] by simp
  then show ?case
    using Cons by (subst parse_chars.simps) simp
qed

lemma parse_value_string: "parse_value (quote_json s @ t) = Some (JStr s, t)"
  using parse_chars_quoted[of s t]
  by (simp add: quote_json_def parse_value.simps[of "CHR 0x22 # concat (map quote_char s) @ CHR 0x22 # t"])

lemma skip_ws_quote [simp]: "skip_ws (CHR 0x22 # t) = CHR 0x22 # t"
  by simp

lemma quote_json_Cons: "quote_json s @ t = CHR 0x22 # concat (map quote_char s) @ CHR 0x22 # t"
  by (simp add: quote_json_def)

lemma skip_ws_quote_json [simp]: "skip_ws (quote_json s @ t) = quote_json s @ t"
  by (simp add: quote_json_def)

lemma quote_json_not_Nil [simp]: "quote_json s \<noteq> []"
  by (simp add: quote_json_def)

lemma member_text_Cons:
  "member_text (k, s) @ t = CHR 0x22 # concat (map quote_char k) @ CHR 0x22 # CHR '':'' # quote_json s @ t"
  by (simp add: member_text_def quote_json_Cons)

lemma parse_members_last:
  "parse_members acc (member_text (k, s) @ CHR ''}'' # t) = Some (JObj (obj_set acc k (JStr s)), t)"
proof -
  note v = parse_value_string[of s "CHR ''}'' # t"]
  show ?thesis
    unfolding member_text_Cons
    by (simp add: parse_chars_quoted v
          parse_members.simps[of acc "CHR 0x22 # concat (map quote_char k) @ CHR 0x22 # CHR '':'' #
                                       quote_json s @ CHR ''}'' # t"])
qed

lemma parse_members_more:
  "parse_members acc (member_text (k, s) @ CHR '','' # member_text m @ t) =
   parse_members (obj_set acc k (JStr s)) (member_text m @ t)"
proof -
  obtain k2 s2 where m: "m = (k2, s2)" by (cases m)
  let ?t = "CHR '','' # member_text m @ t"
  note v = parse_value_string[of s ?t]
  have w: "skip_ws (member_text m @ t) = member_text m @ t"
    by (simp add: m member_text_Cons)
  show ?thesis
    unfolding member_text_Cons[of k s]
    by (simp add: parse_chars_quoted v w
          parse_members.simps[of acc "CHR 0x22 # concat (map quote_char k) @ CHR 0x22 # CHR '':'' #
                                       quote_json s @ CHR '','' # member_text m @ t"])
qed

lemma parse_members_strings:
  "ms \<noteq> [] \<Longrightarrow>
   parse_members acc (commas (map member_text ms) @ CHR ''}'' # t) =
     Some (JObj (foldl (\<lambda>a m. obj_set a (fst m) (JStr (snd m))) acc ms), t)"
proof (induction ms arbitrary: acc)
  case Nil
  then show ?case by simp
next
  case (Cons m ms)
  obtain k s where m: "m = (k, s)" by (cases m)
  show ?case
  proof (cases ms)
    case Nil
    then show ?thesis using parse_members_last[of acc k s t] m by simp
  next
    case (Cons m2 ms2)
    then have "parse_members acc (commas (map member_text (m # ms)) @ CHR ''}'' # t) =
       parse_members (obj_set acc k (JStr s)) (commas (map member_text ms) @ CHR ''}'' # t)"
      using parse_members_more[of acc k s m2 "(if ms2 = [] then [] else CHR '','' # commas (map member_text ms2)) @ CHR ''}'' # t"] m
      by (cases ms2) simp_all
    then show ?thesis using Cons.IH[of "obj_set acc k (JStr s)"] Cons m by simp
  qed
qed

lemma json_members_present:
  "json_members (map (\<lambda>(k, x). (k, qv x)) fs) = map member_text (present fs)"
  by (induction fs rule: present.induct) (simp_all add: qv_def member_text_def)

lemma parse_value_object:
  "parse_value (json_text (JObj (map (\<lambda>(k, x). (k, qv x)) fs)) @ t) =
     Some (JObj (foldl (\<lambda>a m. obj_set a (fst m) (JStr (snd m))) [] (present fs)), t)"
proof (cases "present fs")
  case Nil
  then show ?thesis
    by (simp add: json_members_present parse_value.simps[of "CHR ''{'' # CHR ''}'' # t"])
next
  case (Cons m ms)
  obtain k s where m: "m = (k, s)" by (cases m)
  let ?body = "commas (map member_text (present fs)) @ CHR ''}'' # t"
  obtain b where body: "?body = CHR 0x22 # b"
    using Cons m by (cases ms) (simp_all add: member_text_Cons)
  have "parse_value (CHR ''{'' # ?body) = parse_members [] ?body"
    unfolding body by (simp add: parse_value.simps[of "CHR ''{'' # CHR 0x22 # b"])
  then show ?thesis
    using parse_members_strings[of "present fs" "[]" t] Cons
    by (simp add: json_members_present)
qed

lemma json_parse_object:
  "json_parse (json_text (JObj (map (\<lambda>(k, x). (k, qv x)) fs))) =
     Inr (JObj (foldl (\<lambda>a m. obj_set a (fst m) (JStr (snd m))) [] (present fs)))"
proof -
  let ?txt = "json_text (JObj (map (\<lambda>(k, x). (k, qv x)) fs))"
  have "skip_ws ?txt = ?txt" by simp
  then show ?thesis
    using parse_value_object[of fs "[]"] by (simp add: json_parse_def del: json_text.simps)
qed

lemma valid_utf8_Cons_ascii: "(of_char a :: nat) < 0x80 \<Longrightarrow> valid_utf8 s \<Longrightarrow> valid_utf8 (a # s)"
  by (simp add: valid_utf8_ascii del: valid_utf8.simps(2))

lemma valid_utf8_commas: "\<forall>x\<in>set xs. valid_utf8 x \<Longrightarrow> valid_utf8 (commas xs)"
proof (induction xs rule: commas.induct)
  case 1
  show ?case by simp
next
  case (2 x)
  then show ?case by simp
next
  case (3 x y ys)
  then have "valid_utf8 (CHR '','' # commas (y # ys))"
    by (intro valid_utf8_Cons_ascii) simp_all
  then show ?case using 3 valid_utf8_append[of x "CHR '','' # commas (y # ys)"]
    by (simp del: valid_utf8.simps(2))
qed

lemma valid_utf8_member_text:
  assumes "valid_utf8 k" "valid_utf8 s"
  shows "valid_utf8 (member_text (k, s))"
proof -
  have "valid_utf8 (CHR '':'' # quote_json s)"
    using assms(2) by (intro valid_utf8_Cons_ascii valid_utf8_quote_json) simp_all
  then show ?thesis
    unfolding member_text_def using valid_utf8_append[OF valid_utf8_quote_json[OF assms(1)]] by simp
qed

lemma valid_present:
  "\<forall>f\<in>set fs. valid_utf8 (fst f) \<and> valid_field (snd f) \<Longrightarrow>
   \<forall>m\<in>set (present fs). valid_utf8 (fst m) \<and> valid_utf8 (snd m)"
  by (induction fs rule: present.induct) (simp_all add: valid_field_def del: valid_utf8.simps(2))

lemma valid_utf8_object:
  assumes "\<forall>f\<in>set fs. valid_utf8 (fst f) \<and> valid_field (snd f)"
  shows "valid_utf8 (json_text (JObj (map (\<lambda>(k, x). (k, qv x)) fs)))"
proof -
  have "\<forall>x\<in>set (map member_text (present fs)). valid_utf8 x"
    using valid_present[OF assms] valid_utf8_member_text by auto
  then have "valid_utf8 (commas (map member_text (present fs)))"
    by (rule valid_utf8_commas)
  then have "valid_utf8 (commas (map member_text (present fs)) @ ''}'')"
    by (intro valid_utf8_append valid_utf8_Cons_ascii) simp_all
  then show ?thesis
    by (simp add: json_members_present valid_utf8_ascii del: valid_utf8.simps(2))
qed

lemma object_roundtrip:
  assumes "\<forall>f\<in>set fs. valid_utf8 (fst f) \<and> valid_field (snd f)"
  shows "json_parse (buffer_toString (b64_decode (b64_encode (json_text (JObj (map (\<lambda>(k, x). (k, qv x)) fs)))))) =
     Inr (JObj (foldl (\<lambda>a m. obj_set a (fst m) (JStr (snd m))) [] (present fs)))"
  using utf8_dec_valid[OF valid_utf8_object[OF assms]]
  by (simp only: b64_decode_encode buffer_toString_def json_parse_object)

section \<open>Progress of the JSON reader\<close>

text \<open>
  Every result of the reader leaves strictly less input, so the comparisons of lengths in
  \<open>parse_elems\<close> and \<open>parse_members\<close> never fail.
\<close>

lemma parse_number_length: "parse_number s = Some (v, rest) \<Longrightarrow> length rest < length s"
proof -
  assume a: "parse_number s = Some (v, rest)"
  let ?s1 = "if take 1 s = ''-'' then drop 1 s else s"
  from a have ne: "takeWhile is_digit ?s1 \<noteq> []" and rest: "rest = dropWhile is_digit ?s1"
    by (auto simp: parse_number_def Let_def split: if_splits)
  have "length (takeWhile is_digit ?s1) + length (dropWhile is_digit ?s1) = length ?s1"
    by (metis length_append takeWhile_dropWhile_id)
  then have "length rest < length ?s1" using ne rest by (cases "takeWhile is_digit ?s1") auto
  moreover have "length ?s1 \<le> length s" by simp
  ultimately show ?thesis by simp
qed

lemma take_Cons_nonempty: "take n s = x # xs \<Longrightarrow> 0 < length s"
  by (cases s) auto

lemma parse_scalar_length: "parse_scalar s = Some (v, rest) \<Longrightarrow> length rest < length s"
  by (auto simp: parse_scalar_def split: if_splits dest: parse_number_length take_Cons_nonempty)

lemma parse_progress:
  "parse_value s = Some (v, rest) \<Longrightarrow> length rest < length s"
  "parse_elems acc1 s1 = Some (v1, rest1) \<Longrightarrow> length rest1 < length s1"
  "parse_members acc2 s2 = Some (v2, rest2) \<Longrightarrow> length rest2 < length s2"
proof (induction s and acc1 s1 and acc2 s2 arbitrary: v rest and v1 rest1 and v2 rest2
       rule: parse_value_parse_elems_parse_members.induct)
  case (1 s)
  note prem = "1.prems"[unfolded parse_value.simps[of s]]
  show ?case
  proof (cases s)
    case Nil
    then show ?thesis using prem by simp
  next
    case (Cons c cs)
    consider (obj) "c = CHR ''{''" | (arr) "c \<noteq> CHR ''{''" "c = CHR ''[''"
      | (str) "c \<noteq> CHR ''{''" "c \<noteq> CHR ''[''" "c = CHR 0x22"
      | (sc) "c \<noteq> CHR ''{''" "c \<noteq> CHR ''[''" "c \<noteq> CHR 0x22" by blast
    then show ?thesis
    proof cases
      case obj
      then obtain d r where sk: "skip_ws cs = d # r"
        using prem Cons by (cases "skip_ws cs") auto
      show ?thesis
      proof (cases "d = CHR ''}''")
        case True
        then show ?thesis using prem Cons obj sk skip_ws_length[of cs]
          by auto
      next
        case False
        then have "parse_members [] (d # r) = Some (v, rest)"
          using prem Cons obj sk by simp
        from "1.IH"(1)[OF Cons obj sk False this] show ?thesis
          using Cons sk skip_ws_length[of cs] by simp
      qed
    next
      case arr
      then obtain d r where sk: "skip_ws cs = d # r"
        using prem Cons by (cases "skip_ws cs") auto
      show ?thesis
      proof (cases "d = CHR '']''")
        case True
        then show ?thesis using prem Cons arr sk skip_ws_length[of cs]
          by auto
      next
        case False
        then have "parse_elems [] (d # r) = Some (v, rest)"
          using prem Cons arr sk by simp
        from "1.IH"(2)[OF Cons arr(1) arr(2) sk False this] show ?thesis
          using Cons sk skip_ws_length[of cs] by simp
      qed
    next
      case str
      then show ?thesis using prem Cons
        by (auto split: option.splits dest!: parse_chars_length)
    next
      case sc
      then show ?thesis using prem Cons parse_scalar_length[of s v rest]
        by simp
    qed
  qed
next
  case (2 acc s)
  note prem = "2.prems"[unfolded parse_elems.simps[of acc s]]
  from prem obtain x r where pv: "parse_value s = Some (x, r)" and lt: "length r < length s"
    by (auto split: option.splits if_splits)
  from prem pv lt obtain c r1 where sk: "skip_ws r = c # r1"
    by (cases "skip_ws r") auto
  show ?case
  proof (cases "c = CHR '',''")
    case True
    then have "parse_elems (acc @ [x]) (skip_ws r1) = Some (v1, rest1)"
      using prem pv lt sk by simp
    from "2.IH"(2)[OF pv refl lt sk True this] show ?thesis
      using lt sk skip_ws_length[of r] skip_ws_length[of r1] by simp
  next
    case False
    then show ?thesis using prem pv lt sk skip_ws_length[of r]
      by (auto split: if_splits)
  qed
next
  case (3 acc s)
  note prem = "3.prems"[unfolded parse_members.simps[of acc s]]
  from prem obtain c cs where s: "s = c # cs" and q: "c = CHR 0x22"
    by (cases s) (auto split: if_splits)
  from prem s q obtain k r where pc: "parse_chars cs = Some (k, r)"
    by (auto split: option.splits)
  from prem s q pc obtain d r1 where sk: "skip_ws r = d # r1" and d: "d = CHR '':''"
    by (cases "skip_ws r") (auto split: if_splits)
  from prem s q pc sk d obtain x r2 where pv: "parse_value (skip_ws r1) = Some (x, r2)"
    and lt: "length r2 < length (skip_ws r1)"
    by (auto split: option.splits if_splits)
  from prem s q pc sk d pv lt obtain e r3 where sk2: "skip_ws r2 = e # r3"
    by (cases "skip_ws r2") auto
  have len: "length r3 < length s"
    using s parse_chars_length[OF pc] sk skip_ws_length[of r] skip_ws_length[of r1] lt sk2
      skip_ws_length[of r2] by simp
  show ?case
  proof (cases "e = CHR '',''")
    case True
    then have "parse_members (obj_set acc k x) (skip_ws r3) = Some (v2, rest2)"
      using prem s q pc sk d pv lt sk2 by simp
    from "3.IH"(2)[OF s q pc refl sk d pv refl lt sk2 True this] show ?thesis
      using len skip_ws_length[of r3] by simp
  next
    case False
    then show ?thesis using prem s q pc sk d pv lt sk2 len
      by (auto split: if_splits)
  qed
qed

section \<open>The authorization initiator\<close>




section \<open>The callback handler\<close>

text \<open>The handler of \<^verbatim>\<open>src/index.ts\<close> answers every request with a redirect.\<close>

lemma callback_redirects: "\<exists>t. fst (callback E q w) = Redirect t"
  by (simp add: callback_def split: prod.splits sum.splits)

lemma decode_hello:
  "decode_state (Some ''aGVsbG8='') = Inl (SyntaxError ''Unexpected token in JSON'')"
  by code_simp

text \<open>
  Claim C3. The callback always answers with a redirect, carrying \<^verbatim>\<open>error=auth_failed\<close> when
  anything fails. The handler of \<^verbatim>\<open>src/index.ts\<close> does (\<open>callback_redirects\<close>). The bridge
  variant does not: for a \<^verbatim>\<open>state\<close> that does not decode, here the base64 of \<^verbatim>\<open>hello\<close>, its
  \<^verbatim>\<open>catch\<close> block parses the state again and the SyntaxError leaves the handler, so no
  redirect is sent; \<^verbatim>\<open>src/index.ts\<close> redirects to \<^verbatim>\<open>/?error=auth_failed\<close> on the same request.
\<close>

theorem callback_bridge_unhandled:
  "buffer_toString (b64_decode ''aGVsbG8='') = ''hello'' \<and>
   callback_bridge env0
     \<lparr>q_workspace_id = None, q_organization_id = None, q_redirect_url = None,
      q_code = Some ''4/0AdQt8qh'', q_state = Some ''aGVsbG8=''\<rparr> world0 =
     (Unhandled (SyntaxError ''Unexpected token in JSON''), world0) \<and>
   callback env0
     \<lparr>q_workspace_id = None, q_organization_id = None, q_redirect_url = None,
      q_code = Some ''4/0AdQt8qh'', q_state = Some ''aGVsbG8=''\<rparr> world0 =
     (Redirect ''/?error=auth_failed'', world0)"
proof -
  have "buffer_toString (b64_decode ''aGVsbG8='') = ''hello''" by code_simp
  then show ?thesis
    using decode_hello
    by (simp add: callback_bridge_def callback_bridge_try_def state_fields_bridge_def
          failure_redirect_bridge_def truthy_str_def callback_def callback_try_def state_fields_def)
qed

section \<open>The state token\<close>

lemma own_obj_set: "own (obj_set kvs k v) k' = (if k' = k then v else own kvs k')"
proof (cases "map_of kvs k")
  case None
  then show ?thesis by (auto simp: own_def obj_set_def map_add_def split: option.splits)
next
  case (Some a)
  have "map_of (map (\<lambda>(k', v'). if k' = k then (k', v) else (k', v')) kvs) k' =
        (if k' = k then (case map_of kvs k of None \<Rightarrow> None | Some u \<Rightarrow> Some v) else map_of kvs k')"
    by (induction kvs) auto
  then show ?thesis using Some by (simp add: own_def obj_set_def)
qed

lemma own_Nil: "own [] k = JUndefined"
  by (simp add: own_def)

lemma valid_key: "valid_utf8 ''workspace_id''" "valid_utf8 ''organization_id''" "valid_utf8 ''redirect_url''"
  by (simp_all add: seq_len_def)

text \<open>
  Claim C4, as amended. For field values that are absent or well-formed UTF-8 strings: in the
  bridge variant, encoding \<^verbatim>\<open>{workspace_id, organization_id, redirect_url}\<close> as its initiator
  does and decoding as its callback does gives back the three fields exactly, an absent
  \<^verbatim>\<open>organization_id\<close> included. In \<^verbatim>\<open>src/index.ts\<close> the state token carries \<^verbatim>\<open>workspace_id\<close>
  and \<^verbatim>\<open>redirect_url\<close> only, and these two are given back exactly.
\<close>

theorem state_round_trip:
  assumes w: "valid_field (q_workspace_id q)"
    and og: "valid_field (q_organization_id q)"
    and r: "valid_field (q_redirect_url q)"
  shows "state_fields_bridge (Some (state_token_bridge q)) =
           Inr (qv (q_workspace_id q), qv (q_organization_id q), qv (q_redirect_url q)) \<and>
         state_fields (Some (state_token q)) = Inr (qv (q_workspace_id q), qv (q_redirect_url q))"
proof
  let ?fs = "[(''workspace_id'', q_workspace_id q), (''organization_id'', q_organization_id q),
              (''redirect_url'', q_redirect_url q)]"
  have v: "\<forall>f\<in>set ?fs. valid_utf8 (fst f) \<and> valid_field (snd f)"
    using w og r valid_key by (simp del: valid_utf8.simps(2))
  have t: "state_token_bridge q = b64_encode (json_text (JObj (map (\<lambda>(k, x). (k, qv x)) ?fs)))"
    by (simp add: state_token_bridge_def encode_state_def)
  have d: "decode_state (Some (state_token_bridge q)) =
        Inr (JObj (foldl (\<lambda>a m. obj_set a (fst m) (JStr (snd m))) [] (present ?fs)))"
    unfolding t decode_state_def option.case by (rule object_roundtrip[OF v])
  show "state_fields_bridge (Some (state_token_bridge q)) =
           Inr (qv (q_workspace_id q), qv (q_organization_id q), qv (q_redirect_url q))"
    unfolding state_fields_bridge_def d
    by (cases "q_workspace_id q"; cases "q_organization_id q"; cases "q_redirect_url q")
       (simp_all add: qv_def own_obj_set own_Nil)
next
  let ?fs = "[(''workspace_id'', q_workspace_id q), (''redirect_url'', q_redirect_url q)]"
  have v: "\<forall>f\<in>set ?fs. valid_utf8 (fst f) \<and> valid_field (snd f)"
    using w r valid_key by (simp del: valid_utf8.simps(2))
  have t: "state_token q = b64_encode (json_text (JObj (map (\<lambda>(k, x). (k, qv x)) ?fs)))"
    by (simp add: state_token_def encode_state_def)
  have d: "decode_state (Some (state_token q)) =
        Inr (JObj (foldl (\<lambda>a m. obj_set a (fst m) (JStr (snd m))) [] (present ?fs)))"
    unfolding t decode_state_def option.case by (rule object_roundtrip[OF v])
  show "state_fields (Some (state_token q)) = Inr (qv (q_workspace_id q), qv (q_redirect_url q))"
    unfolding state_fields_def d
    by (cases "q_workspace_id q"; cases "q_redirect_url q")
       (simp_all add: qv_def own_obj_set own_Nil)
qed

theorem state_round_trip_witness:
  "valid_field (Some [CHR ''w'', CHR 0xC3, CHR 0xA9, CHR 0x22, CHR 0x0A, CHR 0x01]) \<and>
   valid_field None \<and>
   valid_field (Some ''https://app/x?a=1&b=2'') \<and>
   state_fields_bridge (Some (state_token_bridge
       \<lparr>q_workspace_id = Some [CHR ''w'', CHR 0xC3, CHR 0xA9, CHR 0x22, CHR 0x0A, CHR 0x01],
        q_organization_id = None, q_redirect_url = Some ''https://app/x?a=1&b=2'',
        q_code = None, q_state = None\<rparr>)) =
     Inr (JStr [CHR ''w'', CHR 0xC3, CHR 0xA9, CHR 0x22, CHR 0x0A, CHR 0x01], JUndefined,
          JStr ''https://app/x?a=1&b=2'')"
proof -
  have h1: "valid_field (Some [CHR ''w'', CHR 0xC3, CHR 0xA9, CHR 0x22, CHR 0x0A, CHR 0x01])"
    by (simp add: valid_field_def seq_len_def is_cont_def)
  have h2: "valid_field None" by (simp add: valid_field_def)
  have h3: "valid_field (Some ''https://app/x?a=1&b=2'')"
    by (simp add: valid_field_def seq_len_def)
  from state_round_trip[of "\<lparr>q_workspace_id = Some [CHR ''w'', CHR 0xC3, CHR 0xA9, CHR 0x22, CHR 0x0A, CHR 0x01],
        q_organization_id = None, q_redirect_url = Some ''https://app/x?a=1&b=2'',
        q_code = None, q_state = None\<rparr>"] h1 h2 h3
  show ?thesis by (simp add: qv_def)
qed

text \<open>
  The claim as stated fails for \<^verbatim>\<open>src/index.ts\<close>: its initiator does not read
  \<^verbatim>\<open>organization_id\<close>, so the decoded state of a request that carried one has none.
\<close>

theorem state_token_drops_organization_id:
  "decode_state (Some (state_token
       \<lparr>q_workspace_id = Some ''w1'', q_organization_id = Some ''org1'',
        q_redirect_url = Some ''https://app/x'', q_code = None, q_state = None\<rparr>)) =
     Inr (JObj [(''workspace_id'', JStr ''w1''), (''redirect_url'', JStr ''https://app/x'')]) \<and>
   get_prop (JObj [(''workspace_id'', JStr ''w1''), (''redirect_url'', JStr ''https://app/x'')])
       ''organization_id'' = Inr JUndefined \<and>
   qv (Some ''org1'') = JStr ''org1''"
  by code_simp

end
